theory Spec2Isabelle
  imports Main "HOL-Library.Word" "HOL-Library.AList"
begin

section \<open>gsrunner: a shallow embedding of runner.go\<close>

text \<open>
  The Go source is one file, \<^verbatim>\<open>runner.go\<close>. Go strings are byte sequences, modelled
  as \<^typ>\<open>string\<close>. A Go \<^verbatim>\<open>map[K]V\<close> is modelled as an association list with
  distinct keys, written with \<^const>\<open>AList.update\<close> and read with \<^const>\<open>map_of\<close>;
  Go's iteration order over a map is unspecified, and nothing below depends on the order
  of an association list beyond what is proved about it.
\<close>

subsection \<open>Errors, panics and formatted messages\<close>

text \<open>
  The three error values of the package (\<^verbatim>\<open>ErrFlag\<close>, \<^verbatim>\<open>ErrConfig\<close>,
  \<^verbatim>\<open>ErrRegistry\<close>), together with the library errors the code can meet:
  \<^verbatim>\<open>io.EOF\<close>, the two errors of \<^verbatim>\<open>strconv\<close>, and an operating-system or
  loader error carried by its description.
\<close>

datatype error = ErrFlag | ErrConfig | ErrRegistry | EOF | ErrSyntax | ErrRange | OSError string

text \<open>
  Log calls and \<^verbatim>\<open>gserrors.Panicf\<close> take a format string and arguments. The formatting
  itself belongs to the logging and error libraries, so a message is kept as the format
  string with its argument list.
\<close>

datatype arg = AStr string | AInt int

text \<open>
  A panic value: \<^verbatim>\<open>gserrors.Panicf(err, fmt, args...)\<close> panics with an error built from
  its arguments; the Go runtime panics on a nil dereference; the \<^verbatim>\<open>flag\<close> package
  panics on a flag whose name begins with \<^verbatim>\<open>-\<close>, on one whose name contains \<^verbatim>\<open>=\<close> and
  on a redefined flag; the entry point may panic with a value of its own.
\<close>

datatype panic =
    GSError error string "arg list"
  | RuntimeError string
  | FlagBeginsWithDash string
  | FlagContainsEquals string
  | FlagRedefined string
  | UserPanic string

definition Panicf :: "error \<Rightarrow> string \<Rightarrow> arg list \<Rightarrow> panic" where
  "Panicf err fmt args = GSError err fmt args"

subsection \<open>\<^verbatim>\<open>bufio.Reader.ReadString\<close>\<close>

text \<open>
  An \<^verbatim>\<open>io.Reader\<close> wrapped by \<^verbatim>\<open>bufio.NewReader\<close>: the bytes still to be read and the
  error the stream reports once they are exhausted (\<^const>\<open>EOF\<close> for a stream that
  simply ends).
\<close>

record reader =
  pending :: string
  at_end :: error

text \<open>
  \<^verbatim>\<open>ReadString(delim)\<close> reads up to and including the first \<^verbatim>\<open>delim\<close>. If the
  stream ends before a delimiter is found, it returns the bytes read so far together with
  the stream's error.
\<close>

definition ReadString :: "reader \<Rightarrow> char \<Rightarrow> string \<times> error option \<times> reader" where
  "ReadString rd delim =
     (case dropWhile (\<lambda>c. c \<noteq> delim) (pending rd) of
        [] \<Rightarrow> (pending rd, Some (at_end rd), rd\<lparr>pending := []\<rparr>)
      | d # rest \<Rightarrow>
          (takeWhile (\<lambda>c. c \<noteq> delim) (pending rd) @ [d], None, rd\<lparr>pending := rest\<rparr>))"

subsection \<open>The registry regular expression\<close>

text \<open>
  \<^verbatim>\<open>^(?P<name>[A-Za-z0-9_](\.[A-Za-z0-9_])+)=(?P<id>[0-9]+)$\<close>

  The expression is compiled without flags, so \<^verbatim>\<open>^\<close> and \<^verbatim>\<open>$\<close> match only at the
  beginning and at the end of the text; the whole string has to match. The character
  classes hold ASCII bytes only.
\<close>

definition is_word :: "char \<Rightarrow> bool" where
  \<comment> \<open>the class \<^verbatim>\<open>[A-Za-z0-9_]\<close>\<close>
  "is_word c = (let n = (of_char c :: nat) in
     (65 \<le> n \<and> n \<le> 90) \<or> (97 \<le> n \<and> n \<le> 122) \<or> (48 \<le> n \<and> n \<le> 57) \<or> n = 95)"

definition is_digit :: "char \<Rightarrow> bool" where
  \<comment> \<open>the class \<^verbatim>\<open>[0-9]\<close>\<close>
  "is_digit c = (let n = (of_char c :: nat) in 48 \<le> n \<and> n \<le> 57)"

text \<open>
  The repetition \<^verbatim>\<open>(\.[A-Za-z0-9_])+\<close>: each round takes a dot and ONE character of
  the class. What follows the repetition in the expression is \<^verbatim>\<open>=\<close>, which is not a
  dot, so taking rounds for as long as they match is the only way to match. The function
  returns the rounds matched and the rest of the text.
\<close>

fun match_segments :: "string \<Rightarrow> string list \<times> string" where
  "match_segments (d # c # rest) =
     (if d = CHR ''.'' \<and> is_word c
      then (case match_segments rest of (segs, r) \<Rightarrow> ([d, c] # segs, r))
      else ([], d # c # rest))"
| "match_segments s = ([], s)"

text \<open>
  \<^verbatim>\<open>registryRegex.FindStringSubmatch(line)\<close>: \<^const>\<open>None\<close> for Go's \<^verbatim>\<open>nil\<close>, otherwise
  the four submatches: the whole match, the group \<^verbatim>\<open>name\<close>, the last round of the
  unnamed inner group, and the group \<^verbatim>\<open>id\<close>.
\<close>

definition FindStringSubmatch :: "string \<Rightarrow> string list option" where
  "FindStringSubmatch line =
     (case line of
        [] \<Rightarrow> None
      | c # s \<Rightarrow>
          if \<not> is_word c then None
          else (case match_segments s of
                  (segs, []) \<Rightarrow> None
                | (segs, e # ds) \<Rightarrow>
                    if segs \<noteq> [] \<and> e = CHR ''='' \<and> ds \<noteq> [] \<and> list_all is_digit ds
                    then Some [line, c # concat segs, last segs, ds]
                    else None))"

subsection \<open>\<^verbatim>\<open>strconv.ParseInt(s, 0, 32)\<close>\<close>

text \<open>
  The standard library's conversion, as the loader calls it: base 0 (the base is taken
  from the prefix of the string, and underscores may separate digits) and a bit size of
  32. It returns a value and an error, as in Go.
\<close>

definition lower :: "nat \<Rightarrow> nat" where
  \<comment> \<open>\<^verbatim>\<open>c | ('x' - 'X')\<close> on a byte\<close>
  "lower c = (c div 64) * 64 + 32 + c mod 32"

definition digit_of :: "char \<Rightarrow> nat option" where
  "digit_of c = (let n = (of_char c :: nat) in
     if 48 \<le> n \<and> n \<le> 57 then Some (n - 48)
     else if 97 \<le> lower n \<and> lower n \<le> 122 then Some (lower n - 97 + 10)
     else None)"

fun underscoreOK_loop :: "bool \<Rightarrow> char \<Rightarrow> string \<Rightarrow> bool" where
  "underscoreOK_loop hex i [] = (i \<noteq> CHR ''_'')"
| "underscoreOK_loop hex i (c # s) =
     (if is_digit c \<or> (hex \<and> 97 \<le> lower (of_char c) \<and> lower (of_char c) \<le> 102)
      then underscoreOK_loop hex (CHR ''0'') s
      else if c = CHR ''_''
      then (if i \<noteq> CHR ''0'' then False else underscoreOK_loop hex (CHR ''_'') s)
      else if i = CHR ''_'' then False
      else underscoreOK_loop hex (CHR ''!'') s)"

definition underscoreOK :: "string \<Rightarrow> bool" where
  "underscoreOK s0 =
     (let s = (case s0 of c # r \<Rightarrow> if c = CHR ''-'' \<or> c = CHR ''+'' then r else s0 | [] \<Rightarrow> s0)
      in case s of
           z # p # r \<Rightarrow>
             if z = CHR ''0'' \<and> lower (of_char p) \<in> {98, 111, 120}
             then underscoreOK_loop (lower (of_char p) = 120) (CHR ''0'') r
             else underscoreOK_loop False (CHR ''^'') s
         | _ \<Rightarrow> underscoreOK_loop False (CHR ''^'') s)"

text \<open>
  The digit loop of \<^verbatim>\<open>ParseUint\<close> on a 64-bit accumulator. The result is the value,
  whether an underscore was seen, and the error.
\<close>

fun ParseUint_loop ::
  "nat \<Rightarrow> 64 word \<Rightarrow> 64 word \<Rightarrow> string \<Rightarrow> 64 word \<Rightarrow> bool \<Rightarrow> 64 word \<times> bool \<times> error option" where
  "ParseUint_loop base cutoff maxVal [] n us = (n, us, None)"
| "ParseUint_loop base cutoff maxVal (c # cs) n us =
     (if c = CHR ''_'' then ParseUint_loop base cutoff maxVal cs n True
      else (case digit_of c of
              None \<Rightarrow> (0, us, Some ErrSyntax)
            | Some d \<Rightarrow>
                if d \<ge> base then (0, us, Some ErrSyntax)
                else if n \<ge> cutoff then (maxVal, us, Some ErrRange)
                else (let n' = n * of_nat base; n1 = n' + of_nat d
                      in if n1 < n' \<or> n1 > maxVal then (maxVal, us, Some ErrRange)
                         else ParseUint_loop base cutoff maxVal cs n1 us)))"

definition ParseUint :: "string \<Rightarrow> 64 word \<times> error option" where
  "ParseUint s0 =
     (if s0 = [] then (0, Some ErrSyntax)
      else
        (let (base, s) =
               (if hd s0 = CHR ''0''
                then (if length s0 \<ge> 3 \<and> lower (of_char (s0 ! 1)) = 98 then (2, drop 2 s0)
                      else if length s0 \<ge> 3 \<and> lower (of_char (s0 ! 1)) = 111 then (8, drop 2 s0)
                      else if length s0 \<ge> 3 \<and> lower (of_char (s0 ! 1)) = 120 then (16, drop 2 s0)
                      else (8, drop 1 s0))
                else (10 :: nat, s0));
             cutoff = ((- 1 :: 64 word) div of_nat base + 1);
             maxVal = (2 ^ 32 - 1 :: 64 word)
         in case ParseUint_loop base cutoff maxVal s 0 False of
              (n, us, Some err) \<Rightarrow> (n, Some err)
            | (n, us, None) \<Rightarrow>
                if us \<and> \<not> underscoreOK s0 then (0, Some ErrSyntax) else (n, None)))"

definition ParseInt :: "string \<Rightarrow> 64 word \<times> error option" where
  "ParseInt s0 =
     (if s0 = [] then (0, Some ErrSyntax)
      else
        (let neg = (hd s0 = CHR ''-'');
             s = (if hd s0 = CHR ''+'' \<or> hd s0 = CHR ''-'' then tl s0 else s0);
             cutoff = (2 ^ 31 :: 64 word)
         in case ParseUint s of
              (un, err) \<Rightarrow>
                if err \<noteq> None \<and> err \<noteq> Some ErrRange then (0, err)
                else if \<not> neg \<and> un \<ge> cutoff then (cutoff - 1, Some ErrRange)
                else if neg \<and> un > cutoff then (- cutoff, Some ErrRange)
                else (if neg then - un else un, None)))"

subsection \<open>\<^verbatim>\<open>loadRegistry\<close>\<close>

type_synonym items = "(string \<times> 16 word) list"

definition fmt_invalid :: string where
  "fmt_invalid = ''load registry file error:'' @ [CHR 0x0A, CHR 0x09] @ ''invalid format''
     @ [CHR 0x0A, CHR 0x09] @ ''%s(%d)''"

definition fmt_range :: string where
  "fmt_range = ''load registry file error:'' @ [CHR 0x0A, CHR 0x09] @ ''id out of range''
     @ [CHR 0x0A, CHR 0x09] @ ''%s(%d)''"

text \<open>
  Lines 266 to 282: the checks on one line that was read. The result is the error and
  the message format of the panic, or the entry to store: the key is \<^verbatim>\<open>tokens[0]\<close>
  and the number is parsed from \<^verbatim>\<open>tokens[1]\<close>, as the source has it.
\<close>

definition check_line :: "string \<Rightarrow> (error \<times> string) + (string \<times> 16 word)" where
  "check_line line =
     (case FindStringSubmatch line of
        None \<Rightarrow> Inl (ErrRegistry, fmt_invalid)
      | Some tokens \<Rightarrow>
          (case ParseInt (tokens ! 1) of
             (val, Some err) \<Rightarrow> Inl (err, fmt_invalid)
           | (val, None) \<Rightarrow>
               if sint val > 65535 then Inl (ErrRegistry, fmt_range)
               else Inr (tokens ! 0, ucast val)))"

text \<open>
  The loop of \<^verbatim>\<open>loadRegistry\<close> (lines 255 to 286), with the local variables
  \<^verbatim>\<open>lines\<close> and \<^verbatim>\<open>items\<close> as arguments. It ends with the panic raised or with the
  mapping accumulated when the stream reports \<^verbatim>\<open>io.EOF\<close>. The counter is a Go
  \<^verbatim>\<open>int\<close>; it counts lines of the input and is modelled as an \<^typ>\<open>int\<close>.
\<close>

function loadRegistry_loop :: "string \<Rightarrow> reader \<Rightarrow> int \<Rightarrow> items \<Rightarrow> panic + items" where
  "loadRegistry_loop path rd lines items =
     (case ReadString rd (CHR 0x0A) of
        (line, Some err, rd') \<Rightarrow>
          if err = EOF then Inr items
          else Inl (Panicf err ''read registry file error :%s'' [AStr path])
      | (line, None, rd') \<Rightarrow>
          (case check_line line of
             Inl (err, fmt) \<Rightarrow> Inl (Panicf err fmt [AStr path, AInt lines])
           | Inr (k, v) \<Rightarrow>
               loadRegistry_loop path rd' (lines + 1) (AList.update k v items)))"
  by pat_completeness auto
termination
proof (relation "measure (\<lambda>(path, rd, lines, items). length (pending rd))")
  show "wf (measure (\<lambda>(path, rd, lines, items). length (pending rd)))"
    by simp
next
  fix path :: string and rd :: reader and lines :: int and items :: items
    and x line y e rd' kv k v
  assume "(line, y) = ReadString rd (CHR 0x0A)" and "(e, rd') = y" and "e = None"
  then have r: "ReadString rd (CHR 0x0A) = (line, None, rd')"
    by simp
  then obtain d where "dropWhile (\<lambda>c. c \<noteq> CHR 0x0A) (pending rd) = d # pending rd'"
    by (auto simp: ReadString_def split: list.splits)
  moreover have "length (dropWhile (\<lambda>c. c \<noteq> CHR 0x0A) (pending rd)) \<le> length (pending rd)"
    by (rule length_dropWhile_le)
  ultimately show "((path, rd', lines + 1, AList.update k v items), (path, rd, lines, items))
      \<in> measure (\<lambda>(path, rd, lines, items). length (pending rd))"
    by simp
qed

declare loadRegistry_loop.simps [simp del]

text \<open>
  The newline-terminated lines a reader delivers, in order: what \<^const>\<open>ReadString\<close>
  returns without an error, call after call.
\<close>

function read_lines :: "reader \<Rightarrow> string list" where
  "read_lines rd =
     (case ReadString rd (CHR 0x0A) of
        (line, None, rd') \<Rightarrow> line # read_lines rd'
      | (line, Some err, rd') \<Rightarrow> [])"
  by pat_completeness auto
termination
proof (relation "measure (\<lambda>rd. length (pending rd))")
  show "wf (measure (\<lambda>rd. length (pending rd)))"
    by simp
next
  fix rd :: reader and line y e rd'
  assume "(line, y) = ReadString rd (CHR 0x0A)" and "(e, rd') = y" and "e = None"
  then have r: "ReadString rd (CHR 0x0A) = (line, None, rd')"
    by simp
  then obtain d where "dropWhile (\<lambda>c. c \<noteq> CHR 0x0A) (pending rd) = d # pending rd'"
    by (auto simp: ReadString_def split: list.splits)
  moreover have "length (dropWhile (\<lambda>c. c \<noteq> CHR 0x0A) (pending rd)) \<le> length (pending rd)"
    by (rule length_dropWhile_le)
  ultimately show "(rd', rd) \<in> measure (\<lambda>rd. length (pending rd))"
    by simp
qed

declare read_lines.simps [simp del]

definition line_ok :: "string \<Rightarrow> bool" where
  "line_ok line = (case check_line line of Inl e \<Rightarrow> False | Inr kv \<Rightarrow> True)"

definition store_line :: "string \<Rightarrow> items \<Rightarrow> items" where
  \<comment> \<open>line 282, for a line that passed the checks\<close>
  "store_line line items =
     (case check_line line of Inl e \<Rightarrow> items | Inr (k, v) \<Rightarrow> AList.update k v items)"

subsection \<open>The grammar of a registry line in the words of the specification\<close>

text \<open>
  The specification gives the grammar of a line, once its trailing newline is stripped,
  as \<^verbatim>\<open>NAME=ID\<close>: \<^verbatim>\<open>NAME\<close> is one or more segments separated by dots, each segment one
  or more characters of \<^verbatim>\<open>[A-Za-z0-9_]\<close>; \<^verbatim>\<open>ID\<close> is one or more decimal digits; the
  value of \<^verbatim>\<open>ID\<close> is at most 65535. The definitions below follow these words, not the
  source; they say which lines the claims call valid.
\<close>

fun split_on :: "char \<Rightarrow> string \<Rightarrow> string list" where
  "split_on sep [] = [[]]"
| "split_on sep (c # cs) =
     (if c = sep then [] # split_on sep cs
      else (case split_on sep cs of seg # segs \<Rightarrow> (c # seg) # segs | [] \<Rightarrow> [[c]]))"

definition spec_name :: "string \<Rightarrow> bool" where
  "spec_name s = list_all (\<lambda>seg. seg \<noteq> [] \<and> list_all is_word seg) (split_on (CHR ''.'') s)"

definition spec_decimal :: "string \<Rightarrow> nat" where
  "spec_decimal s = foldl (\<lambda>n c. 10 * n + (of_char c - 48)) 0 s"

definition spec_id :: "string \<Rightarrow> bool" where
  "spec_id s \<longleftrightarrow> s \<noteq> [] \<and> list_all is_digit s \<and> spec_decimal s \<le> 65535"

definition spec_line_valid :: "string \<Rightarrow> bool" where
  "spec_line_valid line =
     (case dropWhile (\<lambda>c. c \<noteq> CHR ''='') line of
        [] \<Rightarrow> False
      | e # ident \<Rightarrow> spec_name (takeWhile (\<lambda>c. c \<noteq> CHR ''='') line) \<and> spec_id ident)"

subsection \<open>The state of the process outside the runner\<close>

text \<open>
  A value held by the configuration store or given on the command line. A
  \<^verbatim>\<open>float64\<close> is kept as its 64-bit pattern; no arithmetic is done on it.
\<close>

datatype flag_value = VString string | VInt "64 word" | VUint "64 word" | VFloat "64 word"

text \<open>
  \<^verbatim>\<open>flag.String\<close>, \<^verbatim>\<open>flag.Int64\<close>, \<^verbatim>\<open>flag.Uint64\<close> and \<^verbatim>\<open>flag.Float64\<close> return a
  pointer to a fresh variable of their type. A pointer is an address into the memory of
  its type.
\<close>

datatype ptr = PString nat | PInt nat | PUint nat | PFloat nat

datatype level = D | I | W | E

text \<open>
  What the run does to its collaborators, in order: log calls of the runner's logger
  (with a format and arguments, or with the recovered panic value as the argument),
  \<^verbatim>\<open>gslogger.Join\<close>, \<^verbatim>\<open>gslogger.SetLogDir\<close>, \<^verbatim>\<open>gslogger.NewSink\<close> of a file log
  (its name and maximal size), \<^verbatim>\<open>gslogger.NewFlags\<close> (with the level string given to
  \<^verbatim>\<open>ParseLevel\<close>), \<^verbatim>\<open>gsconfig.LoadJSON\<close> and \<^verbatim>\<open>gorpc.RegistryUpdate\<close>.
\<close>

datatype event =
    Log level string "arg list"
  | LogPanic level string panic
  | Join
  | SetLogDir string
  | NewSink string string "64 word"
  | NewFlags string
  | LoadJSON string
  | RegistryUpdate items

record world =
  formal :: "(string \<times> ptr) list"
  mem_string :: "nat \<Rightarrow> string"
  mem_int64 :: "nat \<Rightarrow> 64 word"
  mem_uint64 :: "nat \<Rightarrow> 64 word"
  mem_float64 :: "nat \<Rightarrow> 64 word"
  brk :: nat
  cmdline :: "(string \<times> flag_value) list option"
  config :: "string \<rightharpoonup> flag_value"
  json_files :: "string \<rightharpoonup> (string \<rightharpoonup> flag_value)"
  files :: "string \<rightharpoonup> reader"
  path_abs :: "string \<Rightarrow> string"
  path_dir :: "string \<Rightarrow> string"
  path_base :: "string \<Rightarrow> string"
  trace :: "event list"

text \<open>
  The fields of \<^typ>\<open>world\<close>: \<^const>\<open>formal\<close> is \<^verbatim>\<open>flag.CommandLine\<close>, the flags
  defined, by name; the four memories hold the variables the flags point to, and
  \<^const>\<open>brk\<close> is the next fresh address; \<^const>\<open>cmdline\<close> holds the assignments of the
  command line, or \<^const>\<open>None\<close> if the command line is malformed; \<^const>\<open>config\<close> is
  the store of \<^verbatim>\<open>gsconfig\<close>; \<^const>\<open>json_files\<close> are the files
  \<^verbatim>\<open>gsconfig.LoadJSON\<close> can load, with their content; \<^const>\<open>files\<close> are the files
  \<^verbatim>\<open>os.Open\<close> can open; \<^const>\<open>path_abs\<close>, \<^const>\<open>path_dir\<close> and \<^const>\<open>path_base\<close>
  are \<^verbatim>\<open>filepath.Abs\<close>, \<^verbatim>\<open>filepath.Dir\<close> and \<^verbatim>\<open>filepath.Base\<close> of the platform;
  \<^const>\<open>trace\<close> is the list of events so far.
\<close>

text \<open>
  How a call ends: it returns, it panics, or the process exits (\<^verbatim>\<open>os.Exit\<close>, where
  deferred functions do not run).
\<close>

datatype outcome = Done | Panic panic | Exit

definition emit :: "event \<Rightarrow> world \<Rightarrow> world" where
  "emit ev w = w\<lparr>trace := trace w @ [ev]\<rparr>"

definition andThen ::
  "(world \<Rightarrow> outcome \<times> world) \<Rightarrow> (world \<Rightarrow> outcome \<times> world) \<Rightarrow> world \<Rightarrow> outcome \<times> world" where
  \<comment> \<open>one statement after another: the second runs if the first returns\<close>
  "andThen f g w = (case f w of (Done, w') \<Rightarrow> g w' | (out, w') \<Rightarrow> (out, w'))"

definition log :: "level \<Rightarrow> string \<Rightarrow> arg list \<Rightarrow> world \<Rightarrow> outcome \<times> world" where
  \<comment> \<open>\<^verbatim>\<open>runner.D\<close>, \<^verbatim>\<open>runner.I\<close>, \<^verbatim>\<open>runner.W\<close>, \<^verbatim>\<open>runner.E\<close>\<close>
  "log lv fmt args w = (Done, emit (Log lv fmt args) w)"

subsection \<open>The runner\<close>

text \<open>
  The struct \<^verbatim>\<open>_Runner\<close>. The embedded logger is kept by its name. Each map of flags
  takes a short name to the pointer the \<^verbatim>\<open>flag\<close> package returned.
\<close>

record Runner =
  Log_name :: string
  flagString :: "(string \<times> nat) list"
  flagInt :: "(string \<times> nat) list"
  flagUint :: "(string \<times> nat) list"
  flagFloat32 :: "(string \<times> nat) list"
  flagFloat64 :: "(string \<times> nat) list"
  flagSecond :: "(string \<times> nat) list"
  flagMilliseconds :: "(string \<times> nat) list"
  fullname :: "(string \<times> string) list"

text \<open>
  \<^verbatim>\<open>loadRegistry\<close> (lines 247 to 289): the loop, then one call of
  \<^verbatim>\<open>gorpc.RegistryUpdate\<close> with the mapping if the loop ended without a panic.
\<close>

definition loadRegistry :: "Runner \<Rightarrow> reader \<Rightarrow> string \<Rightarrow> world \<Rightarrow> outcome \<times> world" where
  "loadRegistry runner file path w =
     (case loadRegistry_loop path file 0 [] of
        Inl p \<Rightarrow> (Panic p, w)
      | Inr items \<Rightarrow> (Done, emit (RegistryUpdate items) w))"

text \<open>
  \<^verbatim>\<open>checkName\<close> (lines 81 to 93). A panic leaves the runner as it was; otherwise the
  short name is entered in the map \<^verbatim>\<open>fullname\<close>.
\<close>

definition checkName :: "Runner \<Rightarrow> string \<Rightarrow> string \<Rightarrow> panic option \<times> Runner" where
  "checkName runner name fname =
     (if map_of (fullname runner) name \<noteq> None
      then (Some (Panicf ErrFlag ''duplicate flag name :%s'' [AStr name]), runner)
      else if fname \<in> set (map snd (fullname runner))
      then (Some (Panicf ErrFlag ''duplicate flag fullname :%s'' [AStr fname]), runner)
      else (None, runner\<lparr>fullname := AList.update name fname (fullname runner)\<rparr>))"

text \<open>
  Defining a flag in \<^verbatim>\<open>flag.CommandLine\<close> (\<^verbatim>\<open>FlagSet.Var\<close>): the package panics if
  the name begins with \<^verbatim>\<open>-\<close>, if it contains \<^verbatim>\<open>=\<close>, and if the name is defined
  already, in this order; otherwise a fresh variable of the type of the default value
  holds that value and the flag is entered under its name.
\<close>

definition alloc :: "flag_value \<Rightarrow> world \<Rightarrow> ptr \<times> world" where
  "alloc v w =
     (case v of
        VString s \<Rightarrow>
          (PString (brk w), w\<lparr>mem_string := (mem_string w)(brk w := s), brk := Suc (brk w)\<rparr>)
      | VInt i \<Rightarrow>
          (PInt (brk w), w\<lparr>mem_int64 := (mem_int64 w)(brk w := i), brk := Suc (brk w)\<rparr>)
      | VUint u \<Rightarrow>
          (PUint (brk w), w\<lparr>mem_uint64 := (mem_uint64 w)(brk w := u), brk := Suc (brk w)\<rparr>)
      | VFloat f \<Rightarrow>
          (PFloat (brk w), w\<lparr>mem_float64 := (mem_float64 w)(brk w := f), brk := Suc (brk w)\<rparr>))"

fun addr :: "ptr \<Rightarrow> nat" where
  "addr (PString a) = a"
| "addr (PInt a) = a"
| "addr (PUint a) = a"
| "addr (PFloat a) = a"

definition flag_define :: "string \<Rightarrow> flag_value \<Rightarrow> world \<Rightarrow> (panic + nat) \<times> world" where
  "flag_define name dflt w =
     (if take 1 name = ''-'' then (Inl (FlagBeginsWithDash name), w)
      else if CHR ''='' \<in> set name then (Inl (FlagContainsEquals name), w)
      else if map_of (formal w) name \<noteq> None then (Inl (FlagRedefined name), w)
      else (case alloc dflt w of
              (p, w') \<Rightarrow> (Inr (addr p), w'\<lparr>formal := AList.update name p (formal w')\<rparr>)))"

text \<open>
  The seven declarations (lines 95 to 149). Each checks the names, defines the flag and
  enters the pointer in its map. The description is the usage text of the flag.
  \<^verbatim>\<open>FlagFloat32\<close> converts its default with \<^verbatim>\<open>float64(defaultVal)\<close>; the conversion is
  the argument \<open>float64\<close>.
\<close>

definition declare_flag ::
  "((string \<times> nat) list \<Rightarrow> Runner \<Rightarrow> Runner) \<Rightarrow> (Runner \<Rightarrow> (string \<times> nat) list)
     \<Rightarrow> Runner \<Rightarrow> string \<Rightarrow> string \<Rightarrow> flag_value \<Rightarrow> world \<Rightarrow> outcome \<times> Runner \<times> world" where
  "declare_flag put get runner name fname dflt w =
     (case checkName runner name fname of
        (Some p, runner') \<Rightarrow> (Panic p, runner', w)
      | (None, runner') \<Rightarrow>
          (case flag_define name dflt w of
             (Inl p, w') \<Rightarrow> (Panic p, runner', w')
           | (Inr a, w') \<Rightarrow> (Done, put (AList.update name a (get runner')) runner', w')))"

definition FlagString ::
  "Runner \<Rightarrow> string \<Rightarrow> string \<Rightarrow> string \<Rightarrow> string \<Rightarrow> world \<Rightarrow> outcome \<times> Runner \<times> world" where
  "FlagString runner name fname defaultVal description =
     declare_flag (\<lambda>m r. r\<lparr>flagString := m\<rparr>) flagString runner name fname (VString defaultVal)"

definition FlagInt ::
  "Runner \<Rightarrow> string \<Rightarrow> string \<Rightarrow> 64 word \<Rightarrow> string \<Rightarrow> world \<Rightarrow> outcome \<times> Runner \<times> world" where
  "FlagInt runner name fname defaultVal description =
     declare_flag (\<lambda>m r. r\<lparr>flagInt := m\<rparr>) flagInt runner name fname (VInt defaultVal)"

definition FlagUint ::
  "Runner \<Rightarrow> string \<Rightarrow> string \<Rightarrow> 64 word \<Rightarrow> string \<Rightarrow> world \<Rightarrow> outcome \<times> Runner \<times> world" where
  "FlagUint runner name fname defaultVal description =
     declare_flag (\<lambda>m r. r\<lparr>flagUint := m\<rparr>) flagUint runner name fname (VUint defaultVal)"

definition FlagFloat32 ::
  "(32 word \<Rightarrow> 64 word) \<Rightarrow> Runner \<Rightarrow> string \<Rightarrow> string \<Rightarrow> 32 word \<Rightarrow> string \<Rightarrow> world
     \<Rightarrow> outcome \<times> Runner \<times> world" where
  "FlagFloat32 float64 runner name fname defaultVal description =
     declare_flag (\<lambda>m r. r\<lparr>flagFloat32 := m\<rparr>) flagFloat32 runner name fname
       (VFloat (float64 defaultVal))"

definition FlagFloat64 ::
  "Runner \<Rightarrow> string \<Rightarrow> string \<Rightarrow> 64 word \<Rightarrow> string \<Rightarrow> world \<Rightarrow> outcome \<times> Runner \<times> world" where
  "FlagFloat64 runner name fname defaultVal description =
     declare_flag (\<lambda>m r. r\<lparr>flagFloat64 := m\<rparr>) flagFloat64 runner name fname (VFloat defaultVal)"

definition Seconds ::
  "Runner \<Rightarrow> string \<Rightarrow> string \<Rightarrow> 64 word \<Rightarrow> string \<Rightarrow> world \<Rightarrow> outcome \<times> Runner \<times> world" where
  "Seconds runner name fname defaultVal description =
     declare_flag (\<lambda>m r. r\<lparr>flagSecond := m\<rparr>) flagSecond runner name fname (VUint defaultVal)"

definition Milliseconds ::
  "Runner \<Rightarrow> string \<Rightarrow> string \<Rightarrow> 64 word \<Rightarrow> string \<Rightarrow> world \<Rightarrow> outcome \<times> Runner \<times> world" where
  "Milliseconds runner name fname defaultVal description =
     declare_flag (\<lambda>m r. r\<lparr>flagMilliseconds := m\<rparr>) flagMilliseconds runner name fname
       (VUint defaultVal)"

text \<open>
  \<^verbatim>\<open>New\<close> (lines 53 to 79): a runner with empty maps, then the five declarations of
  the runner's own flags, chained. A panic of one of them is the panic of \<^verbatim>\<open>New\<close>.
\<close>

definition chain ::
  "outcome \<times> Runner \<times> world \<Rightarrow> (Runner \<Rightarrow> world \<Rightarrow> outcome \<times> Runner \<times> world)
     \<Rightarrow> outcome \<times> Runner \<times> world" where
  "chain res f = (case res of (Done, runner, w) \<Rightarrow> f runner w | _ \<Rightarrow> res)"

definition New :: "string \<Rightarrow> world \<Rightarrow> outcome \<times> Runner \<times> world" where
  "New name w =
     (let runner = \<lparr>Log_name = name, flagString = [], flagInt = [], flagUint = [],
                    flagFloat32 = [], flagFloat64 = [], flagSecond = [],
                    flagMilliseconds = [], fullname = []\<rparr>
      in chain (chain (chain (chain
           (FlagString runner ''log'' ''gsrunner.log'' '''' ''the gsrunner log root path'' w)
           (\<lambda>r. FlagString r ''level'' ''gsrunner.log.level'' '''' ''the gsrunner log level''))
           (\<lambda>r. FlagString r ''pprof'' ''gsrunner.pprof'' '''' ''set gsrunner pprof listen address''))
           (\<lambda>r. FlagString r ''config'' ''gsrunner.config'' '''' ''set gsrunner config file''))
           (\<lambda>r. FlagString r ''registry'' ''gsrunner.registry'' ''''
                  ''set the rpc services registry file''))"

subsection \<open>\<^verbatim>\<open>Run\<close>\<close>

text \<open>
  \<^verbatim>\<open>flag.Parse\<close> on \<^verbatim>\<open>flag.CommandLine\<close>, whose error handling is
  \<^verbatim>\<open>flag.ExitOnError\<close>: a malformed command line, an assignment to a flag that is not
  defined and a value that is not of the flag's type end the process. Otherwise each
  assignment is written through the pointer of its flag; a flag that is not assigned
  keeps its default.
\<close>

definition store :: "ptr \<Rightarrow> flag_value \<Rightarrow> world \<Rightarrow> world option" where
  "store p v w =
     (case (p, v) of
        (PString a, VString s) \<Rightarrow> Some (w\<lparr>mem_string := (mem_string w)(a := s)\<rparr>)
      | (PInt a, VInt i) \<Rightarrow> Some (w\<lparr>mem_int64 := (mem_int64 w)(a := i)\<rparr>)
      | (PUint a, VUint u) \<Rightarrow> Some (w\<lparr>mem_uint64 := (mem_uint64 w)(a := u)\<rparr>)
      | (PFloat a, VFloat f) \<Rightarrow> Some (w\<lparr>mem_float64 := (mem_float64 w)(a := f)\<rparr>)
      | _ \<Rightarrow> None)"

fun assign_all :: "(string \<times> flag_value) list \<Rightarrow> world \<Rightarrow> outcome \<times> world" where
  "assign_all [] w = (Done, w)"
| "assign_all ((name, v) # rest) w =
     (case map_of (formal w) name of
        None \<Rightarrow> (Exit, w)
      | Some p \<Rightarrow> (case store p v w of None \<Rightarrow> (Exit, w) | Some w' \<Rightarrow> assign_all rest w'))"

definition flag_Parse :: "world \<Rightarrow> outcome \<times> world" where
  "flag_Parse w = (case cmdline w of None \<Rightarrow> (Exit, w) | Some as \<Rightarrow> assign_all as w)"

text \<open>
  \<^verbatim>\<open>filepath.Ext\<close>: the suffix of the path from the last dot of its last element, empty
  if that element has no dot. The scan runs from the end of the path and stops at a
  separator.
\<close>

fun Ext_scan :: "string \<Rightarrow> string \<Rightarrow> string" where
  "Ext_scan [] acc = []"
| "Ext_scan (c # cs) acc =
     (if c = CHR ''/'' then []
      else if c = CHR ''.'' then c # acc
      else Ext_scan cs (c # acc))"

definition Ext :: "string \<Rightarrow> string" where
  "Ext path = Ext_scan (rev path) []"

text \<open>
  The store of \<^verbatim>\<open>gsconfig\<close>: \<^verbatim>\<open>Update\<close> sets a key; \<^verbatim>\<open>String\<close> and \<^verbatim>\<open>Int64\<close> read a
  key of their type and give the default otherwise; \<^verbatim>\<open>LoadJSON\<close> merges the content of
  a file into the store, or returns an error.
\<close>

definition gsconfig_Update :: "string \<Rightarrow> flag_value \<Rightarrow> world \<Rightarrow> world" where
  "gsconfig_Update key v w = w\<lparr>config := (config w)(key \<mapsto> v)\<rparr>"

definition gsconfig_String :: "world \<Rightarrow> string \<Rightarrow> string \<Rightarrow> string" where
  "gsconfig_String w key dflt = (case config w key of Some (VString s) \<Rightarrow> s | _ \<Rightarrow> dflt)"

definition gsconfig_Int64 :: "world \<Rightarrow> string \<Rightarrow> 64 word \<Rightarrow> 64 word" where
  "gsconfig_Int64 w key dflt = (case config w key of Some (VInt i) \<Rightarrow> i | _ \<Rightarrow> dflt)"

definition gsconfig_LoadJSON :: "string \<Rightarrow> world \<Rightarrow> error option \<times> world" where
  "gsconfig_LoadJSON path w =
     (case json_files w path of
        None \<Rightarrow> (Some (OSError path), emit (LoadJSON path) w)
      | Some m \<Rightarrow> (None, (emit (LoadJSON path) w)\<lparr>config := config w ++ m\<rparr>))"

text \<open>Lines 168 to 177: the configuration file.\<close>

definition Run_config :: "Runner \<Rightarrow> string \<Rightarrow> world \<Rightarrow> outcome \<times> world" where
  "Run_config runner configpath w =
     (if configpath \<noteq> [] then
        (if Ext configpath = ''.json'' then
           (case gsconfig_LoadJSON configpath w of
              (Some err, w') \<Rightarrow>
                (Panic (Panicf ErrConfig ''load config file error :%s'' [AStr configpath]), w')
            | (None, w') \<Rightarrow> (Done, w'))
         else log W ''can't load config file :%s'' [AStr configpath] w)
      else (Done, w))"

text \<open>
  Lines 179 to 199: one loop for each map of flags. Every entry writes the value its
  pointer holds into the store, under the full name of the flag; a short name that is not
  in the map \<^verbatim>\<open>fullname\<close> reads as the empty string, as a Go map does.
\<close>

definition fullname_of :: "Runner \<Rightarrow> string \<Rightarrow> string" where
  "fullname_of runner k = (case map_of (fullname runner) k of Some f \<Rightarrow> f | None \<Rightarrow> [])"

fun merge_flags ::
  "Runner \<Rightarrow> (world \<Rightarrow> nat \<Rightarrow> flag_value) \<Rightarrow> (string \<times> nat) list \<Rightarrow> world \<Rightarrow> world" where
  "merge_flags runner deref [] w = w"
| "merge_flags runner deref ((k, v) # rest) w =
     merge_flags runner deref rest (gsconfig_Update (fullname_of runner k) (deref w v) w)"

definition Run_merge :: "Runner \<Rightarrow> world \<Rightarrow> world" where
  "Run_merge runner w =
     (let w1 = merge_flags runner (\<lambda>w a. VString (mem_string w a)) (flagString runner) w;
          w2 = merge_flags runner (\<lambda>w a. VInt (mem_int64 w a)) (flagInt runner) w1;
          w3 = merge_flags runner (\<lambda>w a. VUint (mem_uint64 w a)) (flagUint runner) w2;
          w4 = merge_flags runner (\<lambda>w a. VFloat (mem_float64 w a)) (flagFloat32 runner) w3;
          w5 = merge_flags runner (\<lambda>w a. VFloat (mem_float64 w a)) (flagFloat64 runner) w4;
          w6 = merge_flags runner (\<lambda>w a. VUint (mem_uint64 w a)) (flagSecond runner) w5
      in merge_flags runner (\<lambda>w a. VUint (mem_uint64 w a)) (flagMilliseconds runner) w6)"

text \<open>Lines 208 to 223: the log directory, the file sink and the log level.\<close>

definition Run_logging :: "Runner \<Rightarrow> string \<Rightarrow> string \<Rightarrow> world \<Rightarrow> outcome \<times> world" where
  "Run_logging runner logroot loglevel w =
     (let w1 = (if logroot \<noteq> [] then
                  (let fullpath = path_abs w logroot;
                       dir = path_dir w fullpath;
                       name = path_base w fullpath
                   in emit (NewSink ''gschat-mailhub'' name
                              (gsconfig_Int64 w ''gschat.mailhub.log.maxsize'' 0))
                        (emit (SetLogDir dir) w))
                else w);
          w2 = (if loglevel \<noteq> [] then emit (NewFlags loglevel) w1 else w1)
      in (Done, w2))"

text \<open>Lines 225 to 238: the registry file.\<close>

definition Run_registry :: "Runner \<Rightarrow> string \<Rightarrow> world \<Rightarrow> outcome \<times> world" where
  "Run_registry runner registryFile w =
     (if registryFile \<noteq> [] then
        andThen (log I ''load gsrpc services registry file :%s'' [AStr registryFile])
          (\<lambda>w. case files w registryFile of
                  None \<Rightarrow>
                    (Panic (Panicf (OSError registryFile) ''open registry file error :%s''
                              [AStr registryFile]), w)
                | Some file \<Rightarrow>
                    andThen (loadRegistry runner file registryFile)
                      (log I ''load gsrpc services registry file :%s -- success''
                         [AStr registryFile]) w) w
      else (Done, w))"

text \<open>
  The body of \<^verbatim>\<open>Run\<close>: the startup (lines 162 to 240), then the entry point (line
  242). A missing key \<^verbatim>\<open>"config"\<close> in \<^verbatim>\<open>flagString\<close> gives a nil pointer, whose
  dereference panics. The three values read back from the store are read after the merge;
  the log calls between the reads do not touch the store.
\<close>

definition Run_startup :: "Runner \<Rightarrow> world \<Rightarrow> outcome \<times> world" where
  "Run_startup runner =
     andThen flag_Parse
       (\<lambda>w. case map_of (flagString runner) ''config'' of
               None \<Rightarrow> (Panic (RuntimeError ''nil pointer dereference''), w)
             | Some p \<Rightarrow>
                 (let configpath = mem_string w p
                  in andThen (log D ''config file path :%s'' [AStr configpath])
                    (andThen (Run_config runner configpath)
                    (andThen (\<lambda>w. (Done, Run_merge runner w))
                    (\<lambda>w. let logroot = gsconfig_String w ''gsrunner.log'' [];
                              loglevel = gsconfig_String w ''gsrunner.log.level'' [];
                              registryFile = gsconfig_String w ''gsrunner.registry'' []
                          in andThen (log D ''log root path :%s'' [AStr logroot])
                            (andThen (log D ''log level :%s'' [AStr loglevel])
                            (andThen (log D ''registry file:%s'' [AStr registryFile])
                            (andThen (Run_logging runner logroot loglevel)
                            (andThen (Run_registry runner registryFile)
                              (log I ''service started.'' []))))) w))) w))"

definition Run_body ::
  "Runner \<Rightarrow> (Runner \<Rightarrow> world \<Rightarrow> outcome \<times> world) \<Rightarrow> world \<Rightarrow> outcome \<times> world" where
  "Run_body runner main = andThen (Run_startup runner) (main runner)"

text \<open>
  The deferred function (lines 152 to 160) and \<^verbatim>\<open>Run\<close>. The deferred function runs
  when the body returns or panics; \<^verbatim>\<open>recover\<close> stops the panic, so \<^verbatim>\<open>Run\<close> returns.
  It does not run if the process exits.
\<close>

definition fmt_catch :: string where
  "fmt_catch = ''catch unknown exception'' @ [CHR 0x0A, CHR 0x09] @ ''%s''"

definition Run_deferred :: "outcome \<Rightarrow> world \<Rightarrow> world" where
  "Run_deferred out w =
     (let w1 = (case out of Panic e \<Rightarrow> emit (LogPanic E fmt_catch e) w | _ \<Rightarrow> w);
          w2 = emit (Log I ''service stopped.'' []) w1
      in emit Join w2)"

definition Run ::
  "Runner \<Rightarrow> (Runner \<Rightarrow> world \<Rightarrow> outcome \<times> world) \<Rightarrow> world \<Rightarrow> outcome \<times> world" where
  "Run runner main w =
     (case Run_body runner main w of
        (Exit, w') \<Rightarrow> (Exit, w')
      | (out, w') \<Rightarrow> (Done, Run_deferred out w'))"

subsection \<open>Declarations in sequence\<close>

text \<open>
  One call of one of the seven declaration methods, with its arguments, and the call
  itself. The names are the first two arguments of every method.
\<close>

datatype decl =
    DString string string string string
  | DInt string string "64 word" string
  | DUint string string "64 word" string
  | DFloat32 string string "32 word" string
  | DFloat64 string string "64 word" string
  | DSeconds string string "64 word" string
  | DMilliseconds string string "64 word" string

fun declare_option ::
  "(32 word \<Rightarrow> 64 word) \<Rightarrow> decl \<Rightarrow> Runner \<Rightarrow> world \<Rightarrow> outcome \<times> Runner \<times> world" where
  "declare_option float64 (DString n f v d) runner = FlagString runner n f v d"
| "declare_option float64 (DInt n f v d) runner = FlagInt runner n f v d"
| "declare_option float64 (DUint n f v d) runner = FlagUint runner n f v d"
| "declare_option float64 (DFloat32 n f v d) runner = FlagFloat32 float64 runner n f v d"
| "declare_option float64 (DFloat64 n f v d) runner = FlagFloat64 runner n f v d"
| "declare_option float64 (DSeconds n f v d) runner = Seconds runner n f v d"
| "declare_option float64 (DMilliseconds n f v d) runner = Milliseconds runner n f v d"

fun decl_name :: "decl \<Rightarrow> string" where
  "decl_name (DString n f v d) = n"
| "decl_name (DInt n f v d) = n"
| "decl_name (DUint n f v d) = n"
| "decl_name (DFloat32 n f v d) = n"
| "decl_name (DFloat64 n f v d) = n"
| "decl_name (DSeconds n f v d) = n"
| "decl_name (DMilliseconds n f v d) = n"

fun decl_fullname :: "decl \<Rightarrow> string" where
  "decl_fullname (DString n f v d) = f"
| "decl_fullname (DInt n f v d) = f"
| "decl_fullname (DUint n f v d) = f"
| "decl_fullname (DFloat32 n f v d) = f"
| "decl_fullname (DFloat64 n f v d) = f"
| "decl_fullname (DSeconds n f v d) = f"
| "decl_fullname (DMilliseconds n f v d) = f"

text \<open>
  The runners a program can hold: the one \<^const>\<open>New\<close> returned, and the one left by any
  declaration on such a runner, whether the declaration returned or panicked, in whatever
  state the rest of the process is at that moment.
\<close>

inductive reachable :: "Runner \<Rightarrow> bool" where
  by_New: "New name w = (Done, runner, w') \<Longrightarrow> reachable runner"
| by_declare: "reachable runner \<Longrightarrow> declare_option float64 d runner w = (out, runner', w') \<Longrightarrow> reachable runner'"

text \<open>
  The short names of the flags in the seven maps, and the flags with the values their
  pointers hold.
\<close>

definition flag_names :: "Runner \<Rightarrow> string list" where
  "flag_names runner =
     map fst (flagString runner) @ map fst (flagInt runner) @ map fst (flagUint runner)
     @ map fst (flagFloat32 runner) @ map fst (flagFloat64 runner)
     @ map fst (flagSecond runner) @ map fst (flagMilliseconds runner)"

definition flag_values :: "Runner \<Rightarrow> world \<Rightarrow> (string \<times> flag_value) list" where
  "flag_values runner w =
     map (\<lambda>(k, a). (k, VString (mem_string w a))) (flagString runner)
     @ map (\<lambda>(k, a). (k, VInt (mem_int64 w a))) (flagInt runner)
     @ map (\<lambda>(k, a). (k, VUint (mem_uint64 w a))) (flagUint runner)
     @ map (\<lambda>(k, a). (k, VFloat (mem_float64 w a))) (flagFloat32 runner)
     @ map (\<lambda>(k, a). (k, VFloat (mem_float64 w a))) (flagFloat64 runner)
     @ map (\<lambda>(k, a). (k, VUint (mem_uint64 w a))) (flagSecond runner)
     @ map (\<lambda>(k, a). (k, VUint (mem_uint64 w a))) (flagMilliseconds runner)"

text \<open>
  The invariant of the runner: short names and full names are each distinct in the map
  \<^verbatim>\<open>fullname\<close>, and every flag of the seven maps is in one map only and has an entry in
  \<^verbatim>\<open>fullname\<close>.
\<close>

definition declared_inv :: "Runner \<Rightarrow> bool" where
  "declared_inv runner \<longleftrightarrow>
     distinct (map fst (fullname runner)) \<and> distinct (map snd (fullname runner))
     \<and> distinct (flag_names runner)
     \<and> set (flag_names runner) \<subseteq> set (map fst (fullname runner))"

text \<open>
  The world in which the startup reaches the registry step (line 225), given the world
  the configuration step returned: the merge, the three log calls and the logging step
  have run.
\<close>

definition at_registry :: "Runner \<Rightarrow> world \<Rightarrow> world" where
  "at_registry r w1 =
     (let wm = Run_merge r w1;
          logroot = gsconfig_String wm ''gsrunner.log'' [];
          loglevel = gsconfig_String wm ''gsrunner.log.level'' [];
          registryFile = gsconfig_String wm ''gsrunner.registry'' []
      in snd (Run_logging r logroot loglevel
           (emit (Log D ''registry file:%s'' [AStr registryFile])
             (emit (Log D ''log level :%s'' [AStr loglevel])
               (emit (Log D ''log root path :%s'' [AStr logroot]) wm)))))"

subsection \<open>Steps that neither end the process nor join the logs\<close>

text \<open>
  A step is quiet at a world if it does not end the process there and
  \<^verbatim>\<open>gslogger.Join\<close> is called as often before it as after it.
\<close>

definition quiet_at :: "(world \<Rightarrow> outcome \<times> world) \<Rightarrow> world \<Rightarrow> bool" where
  "quiet_at f w \<longleftrightarrow>
     fst (f w) \<noteq> Exit \<and> count_list (trace (snd (f w))) Join = count_list (trace w) Join"

definition quiet :: "(world \<Rightarrow> outcome \<times> world) \<Rightarrow> bool" where
  "quiet f \<longleftrightarrow> (\<forall>w. quiet_at f w)"

subsection \<open>A concrete process\<close>

text \<open>
  A process at its start, with nothing defined, an empty command line, an empty store and
  no files, and the runner that \<^const>\<open>New\<close> builds in it. They are the concrete inputs of the
  evaluations below.
\<close>

definition world0 :: world where
  "world0 = \<lparr>formal = [], mem_string = (\<lambda>a. []), mem_int64 = (\<lambda>a. 0), mem_uint64 = (\<lambda>a. 0),
              mem_float64 = (\<lambda>a. 0), brk = 0, cmdline = Some [], config = Map.empty,
              json_files = Map.empty, files = Map.empty, path_abs = (\<lambda>p. p),
              path_dir = (\<lambda>p. p), path_base = (\<lambda>p. p), trace = []\<rparr>"

definition runner0 :: Runner where
  "runner0 = fst (snd (New ''service'' world0))"

definition world1 :: world where
  "world1 = snd (snd (New ''service'' world0))"

text \<open>
  The same process started with \<^verbatim>\<open>-config=service.json -level=debug\<close>, where the file
  \<^verbatim>\<open>service.json\<close> sets the log root and the log level.
\<close>

definition world_json :: world where
  "world_json = world1
     \<lparr>cmdline := Some [(''config'', VString ''service.json''), (''level'', VString ''debug'')],
      json_files := [''service.json'' \<mapsto>
         [''gsrunner.log'' \<mapsto> VString ''/var/log/service'',
          ''gsrunner.log.level'' \<mapsto> VString ''info'']]\<rparr>"

text \<open>
  The same process started with \<^verbatim>\<open>-config=service.yaml\<close>; with
  \<^verbatim>\<open>-config=missing.json\<close>, a file that cannot be loaded; with
  \<^verbatim>\<open>-registry=missing.reg\<close>, a file that cannot be opened; and with
  \<^verbatim>\<open>-registry=services.reg\<close>, a file of the one line \<^verbatim>\<open>a.b=1\<close>. Two entry points: one
  logs a message and returns, one panics.
\<close>

definition world_yaml :: world where
  "world_yaml = world1\<lparr>cmdline := Some [(''config'', VString ''service.yaml'')]\<rparr>"

definition world_nojson :: world where
  "world_nojson = world1\<lparr>cmdline := Some [(''config'', VString ''missing.json'')]\<rparr>"

definition world_noreg :: world where
  "world_noreg = world1\<lparr>cmdline := Some [(''registry'', VString ''missing.reg'')]\<rparr>"

definition world_badreg :: world where
  "world_badreg = world1
     \<lparr>cmdline := Some [(''registry'', VString ''services.reg'')],
      files := [''services.reg'' \<mapsto> \<lparr>pending = ''a.b=1'' @ [CHR 0x0A], at_end = EOF\<rparr>]\<rparr>"

definition main_serve :: "Runner \<Rightarrow> world \<Rightarrow> outcome \<times> world" where
  "main_serve runner w = (Done, emit (Log I ''serving'' []) w)"

definition main_panic :: "Runner \<Rightarrow> world \<Rightarrow> outcome \<times> world" where
  "main_panic runner w = (Panic (UserPanic ''boom''), emit (Log I ''serving'' []) w)"

section \<open>The registry loader\<close>

subsection \<open>What a line read by the loop looks like\<close>

lemma match_segments_concat: "match_segments s = (segs, r) \<Longrightarrow> s = concat segs @ r"
proof (induction s arbitrary: segs r rule: match_segments.induct)
  case (1 d c rest)
  then show ?case by (auto split: if_splits prod.splits)
qed auto

lemma FindStringSubmatch_last:
  assumes "FindStringSubmatch l = Some t"
  shows "l \<noteq> [] \<and> is_digit (last l)"
proof -
  from assms obtain c s where l: "l = c # s"
    by (cases l) (auto simp: FindStringSubmatch_def)
  from assms l obtain segs e ds where m: "match_segments s = (segs, e # ds)"
    and ds: "ds \<noteq> []" "list_all is_digit ds"
    by (auto simp: FindStringSubmatch_def split: if_splits prod.splits list.splits)
  from m have "s = concat segs @ e # ds" by (rule match_segments_concat)
  with l ds have "last l = last ds" by simp
  moreover from ds have "is_digit (last ds)" by (simp add: list_all_iff)
  ultimately show ?thesis using l by simp
qed

lemma ReadString_None:
  assumes "ReadString rd delim = (line, None, rd')"
  shows "line \<noteq> [] \<and> last line = delim \<and> at_end rd' = at_end rd \<and> pending rd = line @ pending rd'"
proof -
  from assms obtain d rest where d: "dropWhile (\<lambda>c. c \<noteq> delim) (pending rd) = d # rest"
    and l: "line = takeWhile (\<lambda>c. c \<noteq> delim) (pending rd) @ [d]" and r: "rd' = rd\<lparr>pending := rest\<rparr>"
    by (auto simp: ReadString_def split: list.splits)
  from d have "d = delim" using hd_dropWhile[of "\<lambda>c. c \<noteq> delim" "pending rd"] by auto
  moreover have "pending rd = takeWhile (\<lambda>c. c \<noteq> delim) (pending rd) @ dropWhile (\<lambda>c. c \<noteq> delim) (pending rd)"
    by simp
  ultimately show ?thesis using l r d by simp
qed

lemma ReadString_Some:
  assumes "ReadString rd delim = (line, Some err, rd')"
  shows "delim \<notin> set (pending rd) \<and> err = at_end rd \<and> line = pending rd"
  using assms by (auto simp: ReadString_def split: list.splits)

lemma ReadString_no_delim:
  assumes "delim \<notin> set (pending rd)"
  shows "ReadString rd delim = (pending rd, Some (at_end rd), rd\<lparr>pending := []\<rparr>)"
proof -
  from assms have dw: "dropWhile (\<lambda>c. c \<noteq> delim) (pending rd) = []"
    by (auto simp: dropWhile_eq_Nil_conv)
  show ?thesis by (simp add: ReadString_def dw)
qed

lemma is_digit_newline: "\<not> is_digit (CHR 0x0A)"
  by (simp add: is_digit_def)

lemma check_line_terminated:
  "l \<noteq> [] \<Longrightarrow> last l = CHR 0x0A \<Longrightarrow> check_line l = Inl (ErrRegistry, fmt_invalid)"
  using FindStringSubmatch_last[of l] is_digit_newline
  by (cases "FindStringSubmatch l") (auto simp: check_line_def)

lemma loop_end:
  "ReadString rd (CHR 0x0A) = (line, Some err, rd') \<Longrightarrow>
   loadRegistry_loop path rd n items =
     (if err = EOF then Inr items else Inl (Panicf err ''read registry file error :%s'' [AStr path]))"
  by (simp add: loadRegistry_loop.simps)

lemma loop_bad:
  "ReadString rd (CHR 0x0A) = (line, None, rd') \<Longrightarrow> check_line line = Inl (err, fmt) \<Longrightarrow>
   loadRegistry_loop path rd n items = Inl (Panicf err fmt [AStr path, AInt n])"
  by (simp add: loadRegistry_loop.simps)

lemma loop_good:
  "ReadString rd (CHR 0x0A) = (line, None, rd') \<Longrightarrow> check_line line = Inr (k, v) \<Longrightarrow>
   loadRegistry_loop path rd n items = loadRegistry_loop path rd' (n + 1) (AList.update k v items)"
  by (simp add: loadRegistry_loop.simps)

lemma read_lines_end:
  "ReadString rd (CHR 0x0A) = (line, Some err, rd') \<Longrightarrow> read_lines rd = []"
  by (simp add: read_lines.simps)

lemma read_lines_step:
  "ReadString rd (CHR 0x0A) = (line, None, rd') \<Longrightarrow> read_lines rd = line # read_lines rd'"
  by (simp add: read_lines.simps)


lemma check_line_fmt:
  "check_line l = Inl (err, fmt) \<Longrightarrow> fmt = fmt_invalid \<or> fmt = fmt_range"
  by (auto simp: check_line_def split: option.splits prod.splits if_splits)

lemma line_ok_Inr: "line_ok l \<Longrightarrow> \<exists>k v. check_line l = Inr (k, v)"
  by (cases "check_line l") (auto simp: line_ok_def)

lemma not_line_ok_Inl: "\<not> line_ok l \<Longrightarrow> \<exists>err fmt. check_line l = Inl (err, fmt)"
  by (cases "check_line l") (auto simp: line_ok_def)

lemma takeWhile_shorter: "\<not> list_all P xs \<Longrightarrow> length (takeWhile P xs) < length xs"
  by (induction xs) auto

lemma loop_first_bad:
  "length (takeWhile line_ok (read_lines rd)) < length (read_lines rd) \<Longrightarrow>
   \<exists>err fmt. check_line (read_lines rd ! length (takeWhile line_ok (read_lines rd))) = Inl (err, fmt) \<and>
     loadRegistry_loop path rd n items =
       Inl (Panicf err fmt [AStr path, AInt (n + int (length (takeWhile line_ok (read_lines rd))))])"
proof (induction "length (pending rd)" arbitrary: rd n items rule: less_induct)
  case less
  obtain line e rd' where r: "ReadString rd (CHR 0x0A) = (line, e, rd')"
    by (cases "ReadString rd (CHR 0x0A)") auto
  show ?case
  proof (cases e)
    case (Some err)
    with r have "read_lines rd = []" by (simp add: read_lines_end)
    with less.prems show ?thesis by simp
  next
    case None
    with r have r': "ReadString rd (CHR 0x0A) = (line, None, rd')" by simp
    then have ls: "read_lines rd = line # read_lines rd'" by (rule read_lines_step)
    show ?thesis
    proof (cases "line_ok line")
      case False
      then obtain err fmt where c: "check_line line = Inl (err, fmt)"
        using not_line_ok_Inl by blast
      with r' have "loadRegistry_loop path rd n items = Inl (Panicf err fmt [AStr path, AInt n])"
        by (rule loop_bad)
      with False c ls show ?thesis by simp
    next
      case True
      then obtain k v where c: "check_line line = Inr (k, v)"
        using line_ok_Inr by blast
      from r' have sh: "length (pending rd') < length (pending rd)"
        using ReadString_None[OF r'] by (metis length_append length_greater_0_conv less_add_same_cancel2)
      from less.prems ls True
      have "length (takeWhile line_ok (read_lines rd')) < length (read_lines rd')" by simp
      from less.hyps[OF sh this, of "n + 1" "AList.update k v items"]
      obtain err fmt where
        "check_line (read_lines rd' ! length (takeWhile line_ok (read_lines rd'))) = Inl (err, fmt)"
        "loadRegistry_loop path rd' (n + 1) (AList.update k v items) =
           Inl (Panicf err fmt [AStr path, AInt (n + 1 + int (length (takeWhile line_ok (read_lines rd'))))])"
        by blast
      with loop_good[OF r' c, of path n items] ls True show ?thesis
        by (simp add: algebra_simps)
    qed
  qed
qed

lemma loop_all_ok:
  "list_all line_ok (read_lines rd) \<Longrightarrow>
   loadRegistry_loop path rd n items =
     (if at_end rd = EOF then Inr (fold store_line (read_lines rd) items)
      else Inl (Panicf (at_end rd) ''read registry file error :%s'' [AStr path]))"
proof (induction "length (pending rd)" arbitrary: rd n items rule: less_induct)
  case less
  obtain line e rd' where r: "ReadString rd (CHR 0x0A) = (line, e, rd')"
    by (cases "ReadString rd (CHR 0x0A)") auto
  show ?case
  proof (cases e)
    case (Some err)
    with r have "read_lines rd = []" by (simp add: read_lines_end)
    moreover from r Some have "err = at_end rd" using ReadString_Some by blast
    ultimately show ?thesis using loop_end[of rd line err rd' path n items] r Some by simp
  next
    case None
    with r have r': "ReadString rd (CHR 0x0A) = (line, None, rd')" by simp
    then have ls: "read_lines rd = line # read_lines rd'" by (rule read_lines_step)
    with less.prems have ok: "line_ok line" and rest: "list_all line_ok (read_lines rd')" by simp_all
    then obtain k v where c: "check_line line = Inr (k, v)"
      using line_ok_Inr by blast
    from r' have sh: "length (pending rd') < length (pending rd)"
      using ReadString_None[OF r'] by (metis length_append length_greater_0_conv less_add_same_cancel2)
    from ReadString_None[OF r'] have ae: "at_end rd' = at_end rd" by simp
    from less.hyps[OF sh rest, of "n + 1" "AList.update k v items"] loop_good[OF r' c, of path n items] ls c ae
    show ?thesis by (simp add: store_line_def)
  qed
qed


lemma loop_append_tail:
  "CHR 0x0A \<notin> set tail \<Longrightarrow>
   loadRegistry_loop path \<lparr>pending = body @ tail, at_end = e\<rparr> n items =
   loadRegistry_loop path \<lparr>pending = body, at_end = e\<rparr> n items"
proof (induction "length body" arbitrary: body n items rule: less_induct)
  case less
  show ?case
  proof (cases "CHR 0x0A \<in> set body")
    case False
    with less.prems have
      "ReadString \<lparr>pending = body @ tail, at_end = e\<rparr> (CHR 0x0A) = (body @ tail, Some e, \<lparr>pending = [], at_end = e\<rparr>)"
      "ReadString \<lparr>pending = body, at_end = e\<rparr> (CHR 0x0A) = (body, Some e, \<lparr>pending = [], at_end = e\<rparr>)"
      by (simp_all add: ReadString_no_delim)
    then show ?thesis by (simp add: loop_end)
  next
    case True
    then obtain pre post where b: "body = pre @ CHR 0x0A # post" and pre: "CHR 0x0A \<notin> set pre"
      by (meson split_list_first)
    from pre have dw: "dropWhile (\<lambda>c. c \<noteq> CHR 0x0A) (pre @ CHR 0x0A # xs) = CHR 0x0A # xs"
      and tw: "takeWhile (\<lambda>c. c \<noteq> CHR 0x0A) (pre @ CHR 0x0A # xs) = pre" for xs
      by (auto simp: dropWhile_append3 takeWhile_tail)
    have r1: "ReadString \<lparr>pending = body @ tail, at_end = e\<rparr> (CHR 0x0A) =
                (pre @ [CHR 0x0A], None, \<lparr>pending = post @ tail, at_end = e\<rparr>)"
      using dw[of "post @ tail"] tw[of "post @ tail"] by (simp add: ReadString_def b)
    have r2: "ReadString \<lparr>pending = body, at_end = e\<rparr> (CHR 0x0A) =
                (pre @ [CHR 0x0A], None, \<lparr>pending = post, at_end = e\<rparr>)"
      using dw[of post] tw[of post] by (simp add: ReadString_def b)
    show ?thesis
    proof (cases "check_line (pre @ [CHR 0x0A])")
      case (Inl ef)
      then obtain err fmt where "check_line (pre @ [CHR 0x0A]) = Inl (err, fmt)" by (cases ef) auto
      then show ?thesis using loop_bad[OF r1] loop_bad[OF r2] by simp
    next
      case (Inr kv)
      then obtain k v where c: "check_line (pre @ [CHR 0x0A]) = Inr (k, v)" by (cases kv) auto
      have "length post < length body" using b by simp
      from less.hyps[OF this less.prems] loop_good[OF r1 c] loop_good[OF r2 c]
      show ?thesis by simp
    qed
  qed
qed

lemma read_lines_append_tail:
  "CHR 0x0A \<notin> set tail \<Longrightarrow>
   read_lines \<lparr>pending = body @ tail, at_end = e\<rparr> = read_lines \<lparr>pending = body, at_end = e\<rparr>"
proof (induction "length body" arbitrary: body rule: less_induct)
  case less
  show ?case
  proof (cases "CHR 0x0A \<in> set body")
    case False
    with less.prems have
      "ReadString \<lparr>pending = body @ tail, at_end = e\<rparr> (CHR 0x0A) = (body @ tail, Some e, \<lparr>pending = [], at_end = e\<rparr>)"
      "ReadString \<lparr>pending = body, at_end = e\<rparr> (CHR 0x0A) = (body, Some e, \<lparr>pending = [], at_end = e\<rparr>)"
      by (simp_all add: ReadString_no_delim)
    then show ?thesis by (simp add: read_lines_end)
  next
    case True
    then obtain pre post where b: "body = pre @ CHR 0x0A # post" and pre: "CHR 0x0A \<notin> set pre"
      by (meson split_list_first)
    from pre have dw: "dropWhile (\<lambda>c. c \<noteq> CHR 0x0A) (pre @ CHR 0x0A # xs) = CHR 0x0A # xs"
      and tw: "takeWhile (\<lambda>c. c \<noteq> CHR 0x0A) (pre @ CHR 0x0A # xs) = pre" for xs
      by (auto simp: dropWhile_append3 takeWhile_tail)
    have r1: "ReadString \<lparr>pending = body @ tail, at_end = e\<rparr> (CHR 0x0A) =
                (pre @ [CHR 0x0A], None, \<lparr>pending = post @ tail, at_end = e\<rparr>)"
      using dw[of "post @ tail"] tw[of "post @ tail"] by (simp add: ReadString_def b)
    have r2: "ReadString \<lparr>pending = body, at_end = e\<rparr> (CHR 0x0A) =
                (pre @ [CHR 0x0A], None, \<lparr>pending = post, at_end = e\<rparr>)"
      using dw[of post] tw[of post] by (simp add: ReadString_def b)
    have "length post < length body" using b by simp
    from less.hyps[OF this less.prems] read_lines_step[OF r1] read_lines_step[OF r2]
    show ?thesis by simp
  qed
qed

lemma read_lines_no_newline:
  "CHR 0x0A \<notin> set s \<Longrightarrow> read_lines \<lparr>pending = s, at_end = e\<rparr> = []"
  using read_lines_append_tail[of s "[]" e]
  by (simp add: read_lines.simps[of "\<lparr>pending = [], at_end = e\<rparr>"] ReadString_def)

lemma loop_no_newline:
  "CHR 0x0A \<notin> set s \<Longrightarrow> loadRegistry_loop path \<lparr>pending = s, at_end = EOF\<rparr> n items = Inr items"
  using loop_all_ok[of "\<lparr>pending = s, at_end = EOF\<rparr>" path n items]
  by (simp add: read_lines_no_newline)

subsection \<open>Claims about the loader\<close>

text \<open>
  C1. The claim: the input line \<^verbatim>\<open>a.b.c=42\<close> is accepted and the mapping published holds
  exactly the entry from \<^verbatim>\<open>a.b.c\<close> to 42. The code does otherwise. With its newline, the
  line reaches the regular expression with the newline still attached, the expression
  does not match, and the loader panics with the format error at index 0. Without a
  newline, the line is dropped at the end of the stream and the empty mapping is
  published. The match on the bare line shows what the submatches are: the key stored
  would be the whole match and the number would be parsed from the name.
\<close>

theorem loadRegistry_rejects_valid_line:
  "loadRegistry runner0 \<lparr>pending = ''a.b.c=42'' @ [CHR 0x0A], at_end = EOF\<rparr> ''registry'' world1
     = (Panic (Panicf ErrRegistry fmt_invalid [AStr ''registry'', AInt 0]), world1)
   \<and> loadRegistry runner0 \<lparr>pending = ''a.b.c=42'', at_end = EOF\<rparr> ''registry'' world1
     = (Done, emit (RegistryUpdate []) world1)
   \<and> FindStringSubmatch ''a.b.c=42'' = Some [''a.b.c=42'', ''a.b.c'', ''.c'', ''42'']
   \<and> check_line ''a.b.c=42'' = Inl (ErrSyntax, fmt_invalid)"
proof -
  have r: "ReadString \<lparr>pending = ''a.b.c=42'' @ [CHR 0x0A], at_end = EOF\<rparr> (CHR 0x0A)
             = (''a.b.c=42'' @ [CHR 0x0A], None, \<lparr>pending = [], at_end = EOF\<rparr>)"
    by (simp add: ReadString_def)
  have m: "FindStringSubmatch (''a.b.c=42'' @ [CHR 0x0A]) = None"
    by (simp add: FindStringSubmatch_def is_word_def is_digit_def)
  then have c: "check_line (''a.b.c=42'' @ [CHR 0x0A]) = Inl (ErrRegistry, fmt_invalid)"
    by (simp add: check_line_def)
  have 1: "loadRegistry_loop ''registry'' \<lparr>pending = ''a.b.c=42'' @ [CHR 0x0A], at_end = EOF\<rparr> 0 []
             = Inl (Panicf ErrRegistry fmt_invalid [AStr ''registry'', AInt 0])"
    by (rule loop_bad [OF r c])
  have r2: "ReadString \<lparr>pending = ''a.b.c=42'', at_end = EOF\<rparr> (CHR 0x0A)
              = (''a.b.c=42'', Some EOF, \<lparr>pending = [], at_end = EOF\<rparr>)"
    by (simp add: ReadString_def)
  have 2: "loadRegistry_loop ''registry'' \<lparr>pending = ''a.b.c=42'', at_end = EOF\<rparr> 0 [] = Inr []"
    using loop_end [OF r2] by simp
  have 3: "FindStringSubmatch ''a.b.c=42'' = Some [''a.b.c=42'', ''a.b.c'', ''.c'', ''42'']"
    by (simp add: FindStringSubmatch_def is_word_def is_digit_def)
  have 4: "ParseInt ''a.b.c'' = (0, Some ErrSyntax)"
    by (simp add: ParseInt_def ParseUint_def digit_of_def lower_def)
  have 5: "check_line ''a.b.c=42'' = Inl (ErrSyntax, fmt_invalid)"
    by (simp add: check_line_def 3 4)
  from 1 2 3 5 show ?thesis
    by (simp add: loadRegistry_def)
qed

text \<open>
  C2. The claim: an input of valid lines followed by a line that violates the grammar
  makes the loader fail, and the update is not called. The code does otherwise where the
  offending line is the last one and has no newline. The line \<^verbatim>\<open>a-b=1\<close> violates the
  grammar of the specification, and the loader's own checks reject it; followed by a
  newline it makes the loader panic with the format error, and nothing is published.
  Without the newline, the loop leaves at \<^verbatim>\<open>io.EOF\<close> before the line is checked: the
  loader returns and calls the update, with the empty mapping.
\<close>

theorem loadRegistry_unterminated_bad_line_published:
  "check_line ''a-b=1'' = Inl (ErrRegistry, fmt_invalid)
   \<and> loadRegistry runner0 \<lparr>pending = ''a-b=1'', at_end = EOF\<rparr> ''registry'' world1
       = (Done, emit (RegistryUpdate []) world1)
   \<and> \<not> spec_line_valid ''a-b=1''
   \<and> loadRegistry runner0 \<lparr>pending = ''a-b=1'' @ [CHR 0x0A], at_end = EOF\<rparr> ''registry'' world1
       = (Panic (Panicf ErrRegistry fmt_invalid [AStr ''registry'', AInt 0]), world1)"
proof -
  have c: "check_line ''a-b=1'' = Inl (ErrRegistry, fmt_invalid)"
    by (simp add: check_line_def FindStringSubmatch_def is_word_def is_digit_def)
  have r: "ReadString \<lparr>pending = ''a-b=1'', at_end = EOF\<rparr> (CHR 0x0A)
             = (''a-b=1'', Some EOF, \<lparr>pending = [], at_end = EOF\<rparr>)"
    by (simp add: ReadString_def)
  have 1: "loadRegistry_loop ''registry'' \<lparr>pending = ''a-b=1'', at_end = EOF\<rparr> 0 [] = Inr []"
    using loop_end [OF r] by simp
  have 2: "\<not> spec_line_valid ''a-b=1''"
    by (simp add: spec_line_valid_def spec_name_def is_word_def)
  have r': "ReadString \<lparr>pending = ''a-b=1'' @ [CHR 0x0A], at_end = EOF\<rparr> (CHR 0x0A)
              = (''a-b=1'' @ [CHR 0x0A], None, \<lparr>pending = [], at_end = EOF\<rparr>)"
    by (simp add: ReadString_def)
  have c': "check_line (''a-b=1'' @ [CHR 0x0A]) = Inl (ErrRegistry, fmt_invalid)"
    by (simp add: check_line_def FindStringSubmatch_def is_word_def is_digit_def)
  have 3: "loadRegistry_loop ''registry'' \<lparr>pending = ''a-b=1'' @ [CHR 0x0A], at_end = EOF\<rparr> 0 []
             = Inl (Panicf ErrRegistry fmt_invalid [AStr ''registry'', AInt 0])"
    by (rule loop_bad [OF r' c'])
  from c 1 2 3 show ?thesis
    by (simp add: loadRegistry_def)
qed

text \<open>
  C3. The claim: a line whose grammar matches and whose number is above 65535, such as
  \<^verbatim>\<open>a.b=65536\<close>, fails with the error "id out of range". The code fails on that line, and
  publishes nothing, but with the format error: the newline is still attached when the
  expression is tried (and the number would be parsed from the name).
\<close>

theorem loadRegistry_large_id_is_format_error:
  "loadRegistry runner0 \<lparr>pending = ''a.b=65536'' @ [CHR 0x0A], at_end = EOF\<rparr> ''registry'' world1
     = (Panic (Panicf ErrRegistry fmt_invalid [AStr ''registry'', AInt 0]), world1)
   \<and> fmt_invalid \<noteq> fmt_range
   \<and> check_line ''a.b=65536'' = Inl (ErrSyntax, fmt_invalid)"
proof -
  have r: "ReadString \<lparr>pending = ''a.b=65536'' @ [CHR 0x0A], at_end = EOF\<rparr> (CHR 0x0A)
             = (''a.b=65536'' @ [CHR 0x0A], None, \<lparr>pending = [], at_end = EOF\<rparr>)"
    by (simp add: ReadString_def)
  have m: "FindStringSubmatch (''a.b=65536'' @ [CHR 0x0A]) = None"
    by (simp add: FindStringSubmatch_def is_word_def is_digit_def)
  then have c: "check_line (''a.b=65536'' @ [CHR 0x0A]) = Inl (ErrRegistry, fmt_invalid)"
    by (simp add: check_line_def)
  have 1: "loadRegistry_loop ''registry'' \<lparr>pending = ''a.b=65536'' @ [CHR 0x0A], at_end = EOF\<rparr> 0 []
             = Inl (Panicf ErrRegistry fmt_invalid [AStr ''registry'', AInt 0])"
    by (rule loop_bad [OF r c])
  have 3: "FindStringSubmatch ''a.b=65536'' = Some [''a.b=65536'', ''a.b'', ''.b'', ''65536'']"
    by (simp add: FindStringSubmatch_def is_word_def is_digit_def)
  have 4: "ParseInt ''a.b'' = (0, Some ErrSyntax)"
    by (simp add: ParseInt_def ParseUint_def digit_of_def lower_def)
  have 5: "check_line ''a.b=65536'' = Inl (ErrSyntax, fmt_invalid)"
    by (simp add: check_line_def 3 4)
  from 1 5 show ?thesis
    by (simp add: loadRegistry_def fmt_invalid_def fmt_range_def)
qed

text \<open>
  C6. The claim: the index in the error message is the number of lines consumed
  successfully before the failing line, whichever of the three checks failed. The code
  does otherwise. In the input of the two lines \<^verbatim>\<open>a.b=1\<close> and \<^verbatim>\<open>a-b=1\<close>, the first line
  is valid by the grammar of the specification and the second is not, so the index to
  report is 1; the loader panics on the first line and reports the index 0. In the input
  of the two lines \<^verbatim>\<open>a.b=1\<close> and \<^verbatim>\<open>a.b=65536\<close>, the failure to report is the range error
  at index 1; the loader reports the format error at index 0. The first line is rejected
  because the regular expression is tried with the newline attached.
\<close>

theorem loadRegistry_index_of_second_line:
  "spec_line_valid ''a.b=1'' \<and> \<not> spec_line_valid ''a-b=1''
   \<and> loadRegistry runner0
         \<lparr>pending = ''a.b=1'' @ [CHR 0x0A] @ ''a-b=1'' @ [CHR 0x0A], at_end = EOF\<rparr>
         ''registry'' world1
       = (Panic (Panicf ErrRegistry fmt_invalid [AStr ''registry'', AInt 0]), world1)
   \<and> \<not> spec_line_valid ''a.b=65536''
   \<and> loadRegistry runner0
         \<lparr>pending = ''a.b=1'' @ [CHR 0x0A] @ ''a.b=65536'' @ [CHR 0x0A], at_end = EOF\<rparr>
         ''registry'' world1
       = (Panic (Panicf ErrRegistry fmt_invalid [AStr ''registry'', AInt 0]), world1)"
proof -
  have v: "spec_line_valid ''a.b=1''" "\<not> spec_line_valid ''a-b=1''"
    "\<not> spec_line_valid ''a.b=65536''"
    by (simp_all add: spec_line_valid_def spec_name_def spec_id_def spec_decimal_def
          is_word_def is_digit_def)
  have c: "check_line (''a.b=1'' @ [CHR 0x0A]) = Inl (ErrRegistry, fmt_invalid)"
    by (simp add: check_line_def FindStringSubmatch_def is_word_def is_digit_def)
  have r1: "ReadString \<lparr>pending = ''a.b=1'' @ [CHR 0x0A] @ ''a-b=1'' @ [CHR 0x0A], at_end = EOF\<rparr>
              (CHR 0x0A)
            = (''a.b=1'' @ [CHR 0x0A], None, \<lparr>pending = ''a-b=1'' @ [CHR 0x0A], at_end = EOF\<rparr>)"
    by (simp add: ReadString_def)
  have r2: "ReadString \<lparr>pending = ''a.b=1'' @ [CHR 0x0A] @ ''a.b=65536'' @ [CHR 0x0A], at_end = EOF\<rparr>
              (CHR 0x0A)
            = (''a.b=1'' @ [CHR 0x0A], None, \<lparr>pending = ''a.b=65536'' @ [CHR 0x0A], at_end = EOF\<rparr>)"
    by (simp add: ReadString_def)
  from v loop_bad [OF r1 c, of "''registry''" 0 "[]"] loop_bad [OF r2 c, of "''registry''" 0 "[]"]
  show ?thesis
    by (simp add: loadRegistry_def)
qed

text \<open>
  C10. A last line without a newline, at the end of the stream, is dropped: loading the
  input with it gives what loading the input without it gives, it is not among the lines
  that are checked, and an input that is only such a line is loaded without an error and
  publishes the empty mapping.
\<close>

theorem unterminated_final_line_discarded:
  assumes "CHR 0x0A \<notin> set tail"
  shows "loadRegistry runner \<lparr>pending = body @ tail, at_end = EOF\<rparr> path w
           = loadRegistry runner \<lparr>pending = body, at_end = EOF\<rparr> path w
         \<and> read_lines \<lparr>pending = body @ tail, at_end = EOF\<rparr>
           = read_lines \<lparr>pending = body, at_end = EOF\<rparr>
         \<and> loadRegistry runner \<lparr>pending = tail, at_end = EOF\<rparr> path w
           = (Done, emit (RegistryUpdate []) w)"
  using assms
  by (simp add: loadRegistry_def loop_append_tail read_lines_append_tail loop_no_newline)

theorem unterminated_final_line_discarded_witness:
  "loadRegistry runner0 \<lparr>pending = [] @ ''a-b=7'', at_end = EOF\<rparr> ''registry'' world1
     = loadRegistry runner0 \<lparr>pending = [], at_end = EOF\<rparr> ''registry'' world1
   \<and> read_lines \<lparr>pending = [] @ ''a-b=7'', at_end = EOF\<rparr>
     = read_lines \<lparr>pending = [], at_end = EOF\<rparr>
   \<and> loadRegistry runner0 \<lparr>pending = ''a-b=7'', at_end = EOF\<rparr> ''registry'' world1
     = (Done, emit (RegistryUpdate []) world1)"
  by (rule unterminated_final_line_discarded) simp

section \<open>The registrar\<close>

subsection \<open>The invariant of the declarations\<close>

lemma update_absent: "k \<notin> fst ` set al \<Longrightarrow> AList.update k v al = al @ [(k, v)]"
  by (induction al) auto

lemma map_of_None_iff: "map_of al k = None \<longleftrightarrow> k \<notin> fst ` set al"
  by (simp add: map_of_eq_None_iff)

lemma checkName_cases:
  "checkName r n f =
     (if n \<in> fst ` set (fullname r)
      then (Some (Panicf ErrFlag ''duplicate flag name :%s'' [AStr n]), r)
      else if f \<in> snd ` set (fullname r)
      then (Some (Panicf ErrFlag ''duplicate flag fullname :%s'' [AStr f]), r)
      else (None, r\<lparr>fullname := fullname r @ [(n, f)]\<rparr>))"
  by (auto simp: checkName_def map_of_None_iff update_absent)

lemma declare_flag_inv:
  assumes inv: "declared_inv r"
    and res: "declare_flag put get r n f v w = (out, r', w')"
    and put_fullname: "\<And>m x. fullname (put m x) = fullname x"
    and put_names: "\<And>k a x. set (flag_names (put (get x @ [(k, a)]) x)) = insert k (set (flag_names x))"
    and put_distinct: "\<And>k a x. distinct (flag_names x) \<Longrightarrow> k \<notin> set (flag_names x) \<Longrightarrow>
                         distinct (flag_names (put (get x @ [(k, a)]) x))"
    and get_names: "\<And>x. set (map fst (get x)) \<subseteq> set (flag_names x)"
    and get_fullname: "\<And>x nf. get (x\<lparr>fullname := nf\<rparr>) = get x"
    and names_fullname: "\<And>x nf. flag_names (x\<lparr>fullname := nf\<rparr>) = flag_names x"
  shows "declared_inv r'"
proof (cases "n \<in> fst ` set (fullname r) \<or> f \<in> snd ` set (fullname r)")
  case True
  with res have "r' = r"
    by (auto simp: declare_flag_def checkName_cases split: if_splits)
  with inv show ?thesis by simp
next
  case False
  let ?r1 = "r\<lparr>fullname := fullname r @ [(n, f)]\<rparr>"
  from False have ck: "checkName r n f = (None, ?r1)"
    by (simp add: checkName_cases)
  from inv False have inv1: "declared_inv ?r1"
    by (auto simp: declared_inv_def names_fullname)
  from inv False have fresh: "n \<notin> set (flag_names r)"
    by (auto simp: declared_inv_def)
  show ?thesis
  proof (cases "fst (flag_define n v w)")
    case (Inl p)
    with res ck have "r' = ?r1"
      by (auto simp: declare_flag_def split: prod.splits sum.splits)
    with inv1 show ?thesis by simp
  next
    case (Inr a)
    from fresh get_names[of r] have "n \<notin> fst ` set (get r)" by auto
    then have up: "AList.update n a (get ?r1) = get r @ [(n, a)]"
      by (simp add: get_fullname update_absent)
    from res ck Inr have r': "r' = put (get r @ [(n, a)]) ?r1"
      by (auto simp: declare_flag_def up split: prod.splits sum.splits)
    have d: "distinct (flag_names r')"
      unfolding r' using put_distinct[of ?r1 n a] inv fresh
      by (simp add: names_fullname get_fullname declared_inv_def)
    have "set (flag_names (put (get ?r1 @ [(n, a)]) ?r1)) = insert n (set (flag_names ?r1))"
      by (rule put_names)
    then have "set (flag_names r') = insert n (set (flag_names r))"
      by (simp add: r' get_fullname names_fullname)
    with inv have s: "set (flag_names r') \<subseteq> set (map fst (fullname r'))"
      by (auto simp: r' put_fullname declared_inv_def)
    from inv1 d s show ?thesis
      by (simp add: declared_inv_def r' put_fullname)
  qed
qed

lemma declare_option_inv:
  assumes "declared_inv r" and "declare_option cv d r w = (out, r', w')"
  shows "declared_inv r'"
proof (cases d)
  case (DString n f v ds)
  with assms show ?thesis
    by (auto simp: FlagString_def flag_names_def elim!: declare_flag_inv[rotated])
qed (insert assms, auto simp: FlagInt_def FlagUint_def FlagFloat32_def FlagFloat64_def Seconds_def Milliseconds_def flag_names_def elim!: declare_flag_inv[rotated])


lemma FlagString_inv:
  "declared_inv r \<Longrightarrow> declared_inv (fst (snd (FlagString r n f v d w)))"
  using declare_option_inv[of r undefined "DString n f v d" w]
  by (cases "FlagString r n f v d w") auto

lemma chain_inv:
  assumes "declared_inv (fst (snd res))"
    and "\<And>r w. declared_inv r \<Longrightarrow> declared_inv (fst (snd (f r w)))"
  shows "declared_inv (fst (snd (chain res f)))"
  using assms by (auto simp: chain_def split: prod.splits outcome.splits)

lemma New_inv: "declared_inv (fst (snd (New name w)))"
  unfolding New_def Let_def
  by (intro chain_inv FlagString_inv) (simp add: declared_inv_def flag_names_def)

lemma reachable_inv: "reachable r \<Longrightarrow> declared_inv r"
proof (induction rule: reachable.induct)
  case (by_New name w runner w')
  with New_inv[of name w] show ?case by simp
next
  case (by_declare runner float64 d w out runner' w')
  then show ?case by (blast intro: declare_option_inv)
qed

lemma fun_upd_const: "(\<lambda>a. c)(x := c) = (\<lambda>a. c)"
  by auto

lemma New_service:
  "New ''service'' world0 =
     (Done,
      \<lparr>Log_name = ''service'',
       flagString = [(''log'', 0), (''level'', 1), (''pprof'', 2), (''config'', 3), (''registry'', 4)],
       flagInt = [], flagUint = [], flagFloat32 = [], flagFloat64 = [],
       flagSecond = [], flagMilliseconds = [],
       fullname = [(''log'', ''gsrunner.log''), (''level'', ''gsrunner.log.level''),
                   (''pprof'', ''gsrunner.pprof''), (''config'', ''gsrunner.config''),
                   (''registry'', ''gsrunner.registry'')]\<rparr>,
      world0\<lparr>formal := [(''log'', PString 0), (''level'', PString 1), (''pprof'', PString 2),
                         (''config'', PString 3), (''registry'', PString 4)],
              brk := 5\<rparr>)"
  by (simp add: New_def chain_def FlagString_def declare_flag_def checkName_def flag_define_def
        alloc_def world0_def Panicf_def fun_upd_const)


lemma runner0_eq:
  "runner0 =
     \<lparr>Log_name = ''service'',
       flagString = [(''log'', 0), (''level'', 1), (''pprof'', 2), (''config'', 3), (''registry'', 4)],
       flagInt = [], flagUint = [], flagFloat32 = [], flagFloat64 = [],
       flagSecond = [], flagMilliseconds = [],
       fullname = [(''log'', ''gsrunner.log''), (''level'', ''gsrunner.log.level''),
                   (''pprof'', ''gsrunner.pprof''), (''config'', ''gsrunner.config''),
                   (''registry'', ''gsrunner.registry'')]\<rparr>"
  by (simp add: runner0_def New_service)

lemma world1_eq:
  "world1 = world0\<lparr>formal := [(''log'', PString 0), (''level'', PString 1), (''pprof'', PString 2),
                         (''config'', PString 3), (''registry'', PString 4)],
              brk := 5\<rparr>"
  by (simp add: world1_def New_service)

lemma reachable_runner0: "reachable runner0"
  by (rule reachable.by_New[of "''service''" world0 runner0 world1])
     (simp add: New_service runner0_eq world1_eq)

text \<open>
  C5. On every runner a program can hold, short names and full names are each distinct.
  A declaration (any of the seven methods) whose short name is already declared panics
  with the flag error that names the short name; otherwise, one whose full name is already
  declared panics with the flag error that names the full name; both leave the runner and
  the rest of the process as they were, so nothing was defined or parsed. A declaration
  with two new names enters them.
\<close>

theorem declared_names_unique:
  assumes "reachable r"
  shows "distinct (map fst (fullname r)) \<and> distinct (map snd (fullname r))
     \<and> (decl_name d \<in> set (map fst (fullname r)) \<longrightarrow>
          declare_option float64 d r w
            = (Panic (Panicf ErrFlag ''duplicate flag name :%s'' [AStr (decl_name d)]), r, w))
     \<and> (decl_name d \<notin> set (map fst (fullname r)) \<and> decl_fullname d \<in> set (map snd (fullname r)) \<longrightarrow>
          declare_option float64 d r w
            = (Panic (Panicf ErrFlag ''duplicate flag fullname :%s'' [AStr (decl_fullname d)]), r, w))
     \<and> (decl_name d \<notin> set (map fst (fullname r)) \<and> decl_fullname d \<notin> set (map snd (fullname r)) \<longrightarrow>
          fullname (fst (snd (declare_option float64 d r w)))
            = fullname r @ [(decl_name d, decl_fullname d)])"
proof -
  from assms have "declared_inv r" by (rule reachable_inv)
  then have 1: "distinct (map fst (fullname r)) \<and> distinct (map snd (fullname r))"
    by (simp add: declared_inv_def)
  have 2: "decl_name d \<in> set (map fst (fullname r)) \<Longrightarrow>
          declare_option float64 d r w
            = (Panic (Panicf ErrFlag ''duplicate flag name :%s'' [AStr (decl_name d)]), r, w)"
    by (cases d)
       (simp_all add: FlagString_def FlagInt_def FlagUint_def FlagFloat32_def FlagFloat64_def
          Seconds_def Milliseconds_def declare_flag_def checkName_cases)
  have 3: "decl_name d \<notin> set (map fst (fullname r)) \<Longrightarrow> decl_fullname d \<in> set (map snd (fullname r)) \<Longrightarrow>
          declare_option float64 d r w
            = (Panic (Panicf ErrFlag ''duplicate flag fullname :%s'' [AStr (decl_fullname d)]), r, w)"
    by (cases d)
       (simp_all add: FlagString_def FlagInt_def FlagUint_def FlagFloat32_def FlagFloat64_def
          Seconds_def Milliseconds_def declare_flag_def checkName_cases)
  have 4: "decl_name d \<notin> set (map fst (fullname r)) \<Longrightarrow> decl_fullname d \<notin> set (map snd (fullname r)) \<Longrightarrow>
          fullname (fst (snd (declare_option float64 d r w)))
            = fullname r @ [(decl_name d, decl_fullname d)]"
    by (cases d)
       (simp_all add: FlagString_def FlagInt_def FlagUint_def FlagFloat32_def FlagFloat64_def
          Seconds_def Milliseconds_def declare_flag_def checkName_cases split: prod.splits sum.splits)
  from 1 2 3 4 show ?thesis by blast
qed

theorem declared_names_unique_witness:
  "distinct (map fst (fullname runner0)) \<and> distinct (map snd (fullname runner0))
   \<and> declare_option ucast (DInt ''log'' ''service.log'' 0 ''a second log flag'') runner0 world1
       = (Panic (Panicf ErrFlag ''duplicate flag name :%s'' [AStr ''log'']), runner0, world1)
   \<and> declare_option ucast (DUint ''verbose'' ''gsrunner.log'' 0 ''a second full name'') runner0 world1
       = (Panic (Panicf ErrFlag ''duplicate flag fullname :%s'' [AStr ''gsrunner.log'']), runner0, world1)
   \<and> fullname (fst (snd (declare_option ucast (DUint ''port'' ''service.port'' 80 ''a new flag'') runner0 world1)))
       = fullname runner0 @ [(''port'', ''service.port'')]"
  using declared_names_unique [OF reachable_runner0, of "DInt ''log'' ''service.log'' 0 ''a second log flag''" ucast world1]
        declared_names_unique [OF reachable_runner0, of "DUint ''verbose'' ''gsrunner.log'' 0 ''a second full name''" ucast world1]
        declared_names_unique [OF reachable_runner0, of "DUint ''port'' ''service.port'' 80 ''a new flag''" ucast world1]
  by (simp add: runner0_eq)


section \<open>The run\<close>

subsection \<open>The merge of the flags into the store\<close>

lemma emit_simps [simp]:
  "trace (emit e w) = trace w @ [e]" "config (emit e w) = config w"
  "mem_string (emit e w) = mem_string w" "mem_int64 (emit e w) = mem_int64 w"
  "mem_uint64 (emit e w) = mem_uint64 w" "mem_float64 (emit e w) = mem_float64 w"
  "formal (emit e w) = formal w" "cmdline (emit e w) = cmdline w"
  "json_files (emit e w) = json_files w" "files (emit e w) = files w"
  by (simp_all add: emit_def)

lemma map_add_upd_front:
  "(m(x \<mapsto> y)) ++ M = m ++ ([x \<mapsto> y] ++ M)"
  by (rule ext) (simp add: map_add_def split: option.splits)

lemma merge_flags_eq:
  assumes d: "\<And>w c. deref (w\<lparr>config := c\<rparr>) = deref w"
  shows "merge_flags r deref fl w =
           w\<lparr>config := config w ++ map_of (rev (map (\<lambda>(k, a). (fullname_of r k, deref w a)) fl))\<rparr>"
proof (induction fl arbitrary: w)
  case Nil
  show ?case by simp
next
  case (Cons ka fl)
  obtain k a where ka: "ka = (k, a)" by (cases ka)
  let ?M = "\<lambda>w. map_of (rev (map (\<lambda>(k, a). (fullname_of r k, deref w a)) fl))"
  let ?w1 = "w\<lparr>config := (config w)(fullname_of r k \<mapsto> deref w a)\<rparr>"
  have dw: "deref ?w1 = deref w" using d [where w = w and c = "(config w)(fullname_of r k \<mapsto> deref w a)"] .
  have "merge_flags r deref (ka # fl) w = merge_flags r deref fl ?w1"
    by (simp add: ka gsconfig_Update_def)
  also have "\<dots> = ?w1\<lparr>config := config ?w1 ++ ?M ?w1\<rparr>"
    by (rule Cons.IH)
  also have "\<dots> = w\<lparr>config := (config w)(fullname_of r k \<mapsto> deref w a) ++ ?M w\<rparr>"
    by (simp only: dw) simp
  also have "\<dots> = w\<lparr>config := config w ++ ([fullname_of r k \<mapsto> deref w a] ++ ?M w)\<rparr>"
    using map_add_upd_front [of "config w" "fullname_of r k" "deref w a" "?M w"] by (simp only:)
  also have "[fullname_of r k \<mapsto> deref w a] ++ ?M w
               = map_of (rev (map (\<lambda>(k, a). (fullname_of r k, deref w a)) (ka # fl)))"
    by (simp add: ka)
  finally show ?case .
qed

lemma map_of_rev_append:
  "map_of (rev (xs @ ys)) = map_of (rev xs) ++ map_of (rev ys)"
  by simp

lemma Run_merge_eq:
  "Run_merge r w =
     w\<lparr>config := config w ++ map_of (rev (map (\<lambda>(k, v). (fullname_of r k, v)) (flag_values r w)))\<rparr>"
proof -
  have 1: "map (\<lambda>(k, v). (fullname_of r k, v)) (map (\<lambda>(k, a). (k, g a)) fl)
             = map (\<lambda>(k, a). (fullname_of r k, g a)) fl" for g :: "nat \<Rightarrow> flag_value" and fl
    by (induction fl) auto
  show ?thesis
    unfolding Run_merge_def Let_def flag_values_def map_append map_of_rev_append 1
    by (simp add: merge_flags_eq)
qed

lemma fullname_of_inj:
  assumes "distinct (map fst al)" and "distinct (map snd al)"
  shows "inj_on (\<lambda>k. case map_of al k of Some f \<Rightarrow> f | None \<Rightarrow> []) (set (map fst al))"
proof (rule inj_onI)
  fix x y
  assume x: "x \<in> set (map fst al)" and y: "y \<in> set (map fst al)"
    and e: "(case map_of al x of Some f \<Rightarrow> f | None \<Rightarrow> []) = (case map_of al y of Some f \<Rightarrow> f | None \<Rightarrow> [])"
  from x obtain fx where fx: "(x, fx) \<in> set al" by auto
  from y obtain fy where fy: "(y, fy) \<in> set al" by auto
  from assms(1) fx fy have "map_of al x = Some fx" "map_of al y = Some fy" by simp_all
  with e have "fx = fy" by simp
  with fx fy assms(2) show "x = y"
    by (metis distinct_map fst_conv snd_conv inj_on_def)
qed

lemma flag_values_names: "map fst (flag_values r w) = flag_names r"
  by (simp add: flag_values_def flag_names_def case_prod_unfold o_def)

lemma Run_merge_config:
  assumes "declared_inv r" and "(k, v) \<in> set (flag_values r w)"
  shows "config (Run_merge r w) (fullname_of r k) = Some v"
proof -
  let ?l = "map (\<lambda>(k, v). (fullname_of r k, v)) (flag_values r w)"
  have "map fst ?l = map (fullname_of r) (map fst (flag_values r w))"
    by (simp add: case_prod_unfold o_def)
  then have "map fst ?l = map (fullname_of r) (flag_names r)"
    by (simp only: flag_values_names)
  moreover from assms(1) have "inj_on (fullname_of r) (set (flag_names r))"
    using fullname_of_inj [of "fullname r"]
    by (auto simp: declared_inv_def fullname_of_def [abs_def] intro: inj_on_subset)
  ultimately have "distinct (map fst ?l)"
    using assms(1) by (simp add: distinct_map declared_inv_def)
  then have "distinct (map fst (rev ?l))"
    by (simp add: rev_map [symmetric])
  moreover from assms(2) have "(fullname_of r k, v) \<in> set (rev ?l)"
    by force
  ultimately have "map_of (rev ?l) (fullname_of r k) = Some v"
    by (rule map_of_is_SomeI)
  then show ?thesis
    by (simp add: Run_merge_eq)
qed


lemma flag_values_cong:
  "mem_string w' = mem_string w \<Longrightarrow> mem_int64 w' = mem_int64 w \<Longrightarrow>
   mem_uint64 w' = mem_uint64 w \<Longrightarrow> mem_float64 w' = mem_float64 w \<Longrightarrow>
   flag_values r w' = flag_values r w"
  by (simp add: flag_values_def)

lemma Run_config_frame:
  assumes "Run_config r cp w = (out, w')"
  shows "mem_string w' = mem_string w \<and> mem_int64 w' = mem_int64 w
       \<and> mem_uint64 w' = mem_uint64 w \<and> mem_float64 w' = mem_float64 w"
  using assms
  by (auto simp: Run_config_def gsconfig_LoadJSON_def log_def split: if_splits option.splits)

lemma andThen_Done:
  "andThen f g w = (Done, w') \<longleftrightarrow> (\<exists>w1. f w = (Done, w1) \<and> g w1 = (Done, w'))"
  by (auto simp: andThen_def split: prod.splits outcome.splits)

lemma Run_logging_config: "Run_logging r a b w = (out, w') \<Longrightarrow> config w' = config w"
  by (auto simp: Run_logging_def Let_def split: if_splits)

lemma loadRegistry_config: "loadRegistry r rd p w = (out, w') \<Longrightarrow> config w' = config w"
  by (auto simp: loadRegistry_def split: sum.splits)

lemma Run_registry_config: "Run_registry r f w = (out, w') \<Longrightarrow> config w' = config w"
  by (auto simp: Run_registry_def andThen_def log_def split: if_splits option.splits prod.splits outcome.splits
        dest: loadRegistry_config)

lemma Run_startup_Done:
  assumes "Run_startup r w = (Done, w')"
  shows "\<exists>wp p w1. flag_Parse w = (Done, wp) \<and> map_of (flagString r) ''config'' = Some p
           \<and> Run_config r (mem_string wp p) (emit (Log D ''config file path :%s'' [AStr (mem_string wp p)]) wp) = (Done, w1)
           \<and> config w' = config (Run_merge r w1)"
proof -
  from assms obtain wp where p: "flag_Parse w = (Done, wp)"
    by (auto simp: Run_startup_def andThen_Done)
  with assms obtain p where c: "map_of (flagString r) ''config'' = Some p"
    by (cases "map_of (flagString r) ''config''") (auto simp: Run_startup_def andThen_Done)
  let ?cp = "mem_string wp p"
  from assms p c obtain w1 w2 w3 where
    1: "Run_config r ?cp (emit (Log D ''config file path :%s'' [AStr ?cp]) wp) = (Done, w1)"
    and 2: "Run_logging r (gsconfig_String (Run_merge r w1) ''gsrunner.log'' [])
              (gsconfig_String (Run_merge r w1) ''gsrunner.log.level'' [])
              (emit (Log D ''registry file:%s''
                       [AStr (gsconfig_String (Run_merge r w1) ''gsrunner.registry'' [])])
                 (emit (Log D ''log level :%s''
                          [AStr (gsconfig_String (Run_merge r w1) ''gsrunner.log.level'' [])])
                    (emit (Log D ''log root path :%s''
                             [AStr (gsconfig_String (Run_merge r w1) ''gsrunner.log'' [])])
                       (Run_merge r w1)))) = (Done, w2)"
    and 3: "Run_registry r (gsconfig_String (Run_merge r w1) ''gsrunner.registry'' []) w2 = (Done, w3)"
    and 4: "w' = emit (Log I ''service started.'' []) w3"
    by (auto simp: Run_startup_def andThen_Done Let_def log_def gsconfig_String_def)
  from Run_logging_config [OF 2] Run_registry_config [OF 3] 4
  have "config w' = config (Run_merge r w1)" by simp
  with p c 1 show ?thesis by auto
qed

text \<open>
  C7. On a reachable runner, every flag of the seven maps, with the value its pointer
  holds after the command line is parsed, ends in the store under the full name of the
  flag. This holds for the merge step on the world the configuration step returned,
  whatever a configuration file has put into the store, and it holds for the store at
  the end of the startup, when the entry point is invoked.
\<close>

theorem flags_override_config_file:
  assumes "reachable r"
  shows "(Run_config r cp w = (Done, w1) \<and> (k, v) \<in> set (flag_values r w)
            \<longrightarrow> config (Run_merge r w1) (fullname_of r k) = Some v)
       \<and> (flag_Parse w = (Done, wp) \<and> (k, v) \<in> set (flag_values r wp)
            \<and> Run_startup r w = (Done, w')
            \<longrightarrow> config w' (fullname_of r k) = Some v)"
proof (intro conjI impI)
  from assms have inv: "declared_inv r" by (rule reachable_inv)
  {
    assume "Run_config r cp w = (Done, w1) \<and> (k, v) \<in> set (flag_values r w)"
    moreover from this have "flag_values r w1 = flag_values r w"
      using Run_config_frame [of r cp w Done w1] by (intro flag_values_cong) simp_all
    ultimately have "(k, v) \<in> set (flag_values r w1)" by simp
    with inv show "config (Run_merge r w1) (fullname_of r k) = Some v"
      by (rule Run_merge_config)
  }
  {
    assume a: "flag_Parse w = (Done, wp) \<and> (k, v) \<in> set (flag_values r wp) \<and> Run_startup r w = (Done, w')"
    then obtain p w2 where
      c: "Run_config r (mem_string wp p) (emit (Log D ''config file path :%s'' [AStr (mem_string wp p)]) wp) = (Done, w2)"
      and e: "config w' = config (Run_merge r w2)"
      using Run_startup_Done [of r w w'] by auto
    have "flag_values r w2 = flag_values r wp"
      using Run_config_frame [OF c] by (intro flag_values_cong) simp_all
    with a have "(k, v) \<in> set (flag_values r w2)" by simp
    with inv have "config (Run_merge r w2) (fullname_of r k) = Some v"
      by (rule Run_merge_config)
    with e show "config w' (fullname_of r k) = Some v" by simp
  }
qed

lemma parse_json:
  "flag_Parse world_json
     = (Done, world_json\<lparr>mem_string := (mem_string world_json)(3 := ''service.json'', 1 := ''debug'')\<rparr>)"
  by (simp add: flag_Parse_def world_json_def world1_eq world0_def store_def)

lemma ext_json: "Ext ''service.json'' = ''.json''"
  by (simp add: Ext_def)

lemma world_json_simps:
  "json_files world_json ''service.json'' =
     Some [''gsrunner.log'' \<mapsto> VString ''/var/log/service'',
           ''gsrunner.log.level'' \<mapsto> VString ''info'']"
  "files world_json = Map.empty" "trace world_json = []" "config world_json = Map.empty"
  "mem_string world_json = (\<lambda>a. [])"
  by (simp_all add: world_json_def world1_eq world0_def)

lemma startup_json: "fst (Run_startup runner0 world_json) = Done"
  by (simp add: Run_startup_def andThen_def parse_json runner0_eq log_def Run_config_def ext_json
        gsconfig_LoadJSON_def emit_def Run_merge_def world_json_simps
        gsconfig_Update_def fullname_of_def gsconfig_String_def Run_logging_def Run_registry_def Let_def)

theorem flags_override_config_file_witness:
  "json_files world_json ''service.json'' =
     Some [''gsrunner.log'' \<mapsto> VString ''/var/log/service'',
           ''gsrunner.log.level'' \<mapsto> VString ''info'']
   \<and> config (snd (Run_startup runner0 world_json)) ''gsrunner.log.level'' = Some (VString ''debug'')
   \<and> config (snd (Run_startup runner0 world_json)) ''gsrunner.log'' = Some (VString [])"
proof -
  let ?wp = "world_json\<lparr>mem_string := (mem_string world_json)(3 := ''service.json'', 1 := ''debug'')\<rparr>"
  have s: "Run_startup runner0 world_json = (Done, snd (Run_startup runner0 world_json))"
    using startup_json by (cases "Run_startup runner0 world_json") simp
  have 1: "(''level'', VString ''debug'') \<in> set (flag_values runner0 ?wp)"
    and 2: "(''log'', VString []) \<in> set (flag_values runner0 ?wp)"
    by (simp_all add: flag_values_def runner0_eq world_json_simps)
  have f: "fullname_of runner0 ''level'' = ''gsrunner.log.level''"
    "fullname_of runner0 ''log'' = ''gsrunner.log''"
    by (simp_all add: fullname_of_def runner0_eq)
  from flags_override_config_file [OF reachable_runner0, where w = world_json and wp = ?wp
      and k = "''level''" and v = "VString ''debug''" and w' = "snd (Run_startup runner0 world_json)"]
    flags_override_config_file [OF reachable_runner0, where w = world_json and wp = ?wp
      and k = "''log''" and v = "VString []" and w' = "snd (Run_startup runner0 world_json)"]
    parse_json s 1 2 f
  show ?thesis by (simp add: world_json_simps)
qed

subsection \<open>The shutdown and the configuration file\<close>

lemma quiet_at_andThen:
  assumes "quiet_at f w" and "\<And>w1. quiet_at g w1"
  shows "quiet_at (andThen f g) w"
proof (cases "f w")
  case (Pair out w1)
  with assms(1) assms(2)[of w1] show ?thesis
    by (cases out) (auto simp: quiet_at_def andThen_def)
qed

lemma quiet_at_log: "quiet_at (log lv fmt args) w"
  by (simp add: quiet_at_def log_def)

lemma quiet_at_Run_config: "quiet_at (Run_config r cp) w"
  by (auto simp: quiet_at_def Run_config_def gsconfig_LoadJSON_def log_def emit_def
        split: option.splits)

lemma quiet_at_Run_merge: "quiet_at (\<lambda>w. (Done, Run_merge r w)) w"
  by (simp add: quiet_at_def Run_merge_eq)

lemma quiet_at_Run_logging: "quiet_at (Run_logging r a b) w"
  by (simp add: quiet_at_def Run_logging_def Let_def)

lemma quiet_at_loadRegistry: "quiet_at (loadRegistry r rd p) w"
  by (auto simp: quiet_at_def loadRegistry_def split: sum.splits)

lemma quiet_at_Run_registry: "quiet_at (Run_registry r f) w"
proof (cases "f = []")
  case True
  then show ?thesis by (simp add: quiet_at_def Run_registry_def)
next
  case False
  have "quiet_at (\<lambda>w. case files w f of
                  None \<Rightarrow> (Panic (Panicf (OSError f) ''open registry file error :%s'' [AStr f]), w)
                | Some rd \<Rightarrow> andThen (loadRegistry r rd f)
                      (log I ''load gsrpc services registry file :%s -- success'' [AStr f]) w) w1" for w1
  proof (cases "files w1 f")
    case None
    then show ?thesis by (simp add: quiet_at_def)
  next
    case (Some rd)
    have "quiet_at (andThen (loadRegistry r rd f)
                      (log I ''load gsrpc services registry file :%s -- success'' [AStr f])) w1"
      by (intro quiet_at_andThen quiet_at_loadRegistry quiet_at_log)
    with Some show ?thesis by (simp add: quiet_at_def)
  qed
  with False show ?thesis
    unfolding Run_registry_def by (simp add: quiet_at_andThen quiet_at_log)
qed

lemma store_trace: "store p v w = Some w' \<Longrightarrow> trace w' = trace w"
  by (auto simp: store_def split: ptr.splits flag_value.splits)

lemma assign_all_trace: "trace (snd (assign_all as w)) = trace w"
proof (induction as arbitrary: w)
  case Nil
  show ?case by simp
next
  case (Cons a as)
  obtain n v where a: "a = (n, v)" by (cases a)
  show ?case
    by (auto simp: a Cons.IH store_trace split: option.splits)
qed

lemma flag_Parse_trace: "trace (snd (flag_Parse w)) = trace w"
  by (simp add: flag_Parse_def assign_all_trace split: option.splits)

lemma assign_all_outcome: "fst (assign_all as w) = Done \<or> fst (assign_all as w) = Exit"
proof (induction as arbitrary: w)
  case Nil
  show ?case by simp
next
  case (Cons a as)
  obtain n v where a: "a = (n, v)" by (cases a)
  show ?case
    using Cons.IH by (auto simp: a split: option.splits)
qed

lemma flag_Parse_outcome: "fst (flag_Parse w) = Done \<or> fst (flag_Parse w) = Exit"
  using assign_all_outcome by (auto simp: flag_Parse_def split: option.splits)

lemma quiet_at_after_parse:
  "quiet_at (\<lambda>w. case map_of (flagString r) ''config'' of
               None \<Rightarrow> (Panic (RuntimeError ''nil pointer dereference''), w)
             | Some p \<Rightarrow>
                 (let configpath = mem_string w p
                  in andThen (log D ''config file path :%s'' [AStr configpath])
                    (andThen (Run_config r configpath)
                    (andThen (\<lambda>w. (Done, Run_merge r w))
                    (\<lambda>w. let logroot = gsconfig_String w ''gsrunner.log'' [];
                              loglevel = gsconfig_String w ''gsrunner.log.level'' [];
                              registryFile = gsconfig_String w ''gsrunner.registry'' []
                          in andThen (log D ''log root path :%s'' [AStr logroot])
                            (andThen (log D ''log level :%s'' [AStr loglevel])
                            (andThen (log D ''registry file:%s'' [AStr registryFile])
                            (andThen (Run_logging r logroot loglevel)
                            (andThen (Run_registry r registryFile)
                              (log I ''service started.'' []))))) w))) w)) w"
proof (cases "map_of (flagString r) ''config''")
  case None
  then show ?thesis by (simp add: quiet_at_def)
next
  case (Some p)
  have tail: "quiet_at (\<lambda>w. let logroot = gsconfig_String w ''gsrunner.log'' [];
                              loglevel = gsconfig_String w ''gsrunner.log.level'' [];
                              registryFile = gsconfig_String w ''gsrunner.registry'' []
                          in andThen (log D ''log root path :%s'' [AStr logroot])
                            (andThen (log D ''log level :%s'' [AStr loglevel])
                            (andThen (log D ''registry file:%s'' [AStr registryFile])
                            (andThen (Run_logging r logroot loglevel)
                            (andThen (Run_registry r registryFile)
                              (log I ''service started.'' []))))) w) w1" for w1
  proof -
    have "quiet_at (andThen (log D ''log root path :%s'' [AStr a])
                            (andThen (log D ''log level :%s'' [AStr b])
                            (andThen (log D ''registry file:%s'' [AStr c])
                            (andThen (Run_logging r a b)
                            (andThen (Run_registry r c)
                              (log I ''service started.'' [])))))) w1" for a b c
      by (intro quiet_at_andThen quiet_at_log quiet_at_Run_logging quiet_at_Run_registry)
    then show ?thesis by (simp add: quiet_at_def Let_def)
  qed
  have "quiet_at (andThen (log D ''config file path :%s'' [AStr cp])
                    (andThen (Run_config r cp)
                    (andThen (\<lambda>w. (Done, Run_merge r w))
                    (\<lambda>w. let logroot = gsconfig_String w ''gsrunner.log'' [];
                              loglevel = gsconfig_String w ''gsrunner.log.level'' [];
                              registryFile = gsconfig_String w ''gsrunner.registry'' []
                          in andThen (log D ''log root path :%s'' [AStr logroot])
                            (andThen (log D ''log level :%s'' [AStr loglevel])
                            (andThen (log D ''registry file:%s'' [AStr registryFile])
                            (andThen (Run_logging r logroot loglevel)
                            (andThen (Run_registry r registryFile)
                              (log I ''service started.'' []))))) w)))) w" for cp
    by (intro quiet_at_andThen quiet_at_log quiet_at_Run_config quiet_at_Run_merge tail)
  with Some show ?thesis by (simp add: quiet_at_def Let_def)
qed

lemma Run_startup_quiet:
  "fst (flag_Parse w) = Done \<Longrightarrow> quiet_at (Run_startup r) w"
proof -
  assume d: "fst (flag_Parse w) = Done"
  then obtain wp where p: "flag_Parse w = (Done, wp)" by (cases "flag_Parse w") simp
  with flag_Parse_trace [of w] have t: "trace wp = trace w" by simp
  from p have "Run_startup r w = (\<lambda>w. case map_of (flagString r) ''config'' of
               None \<Rightarrow> (Panic (RuntimeError ''nil pointer dereference''), w)
             | Some p \<Rightarrow>
                 (let configpath = mem_string w p
                  in andThen (log D ''config file path :%s'' [AStr configpath])
                    (andThen (Run_config r configpath)
                    (andThen (\<lambda>w. (Done, Run_merge r w))
                    (\<lambda>w. let logroot = gsconfig_String w ''gsrunner.log'' [];
                              loglevel = gsconfig_String w ''gsrunner.log.level'' [];
                              registryFile = gsconfig_String w ''gsrunner.registry'' []
                          in andThen (log D ''log root path :%s'' [AStr logroot])
                            (andThen (log D ''log level :%s'' [AStr loglevel])
                            (andThen (log D ''registry file:%s'' [AStr registryFile])
                            (andThen (Run_logging r logroot loglevel)
                            (andThen (Run_registry r registryFile)
                              (log I ''service started.'' []))))) w))) w)) wp"
    by (simp add: Run_startup_def andThen_def)
  with quiet_at_after_parse [of r wp] t show ?thesis
    by (simp add: quiet_at_def)
qed

lemma Run_deferred_trace:
  "trace (Run_deferred out w) =
     trace w @ (case out of Panic e \<Rightarrow> [LogPanic E fmt_catch e] | _ \<Rightarrow> [])
       @ [Log I ''service stopped.'' [], Join]"
  by (cases out) (simp_all add: Run_deferred_def Let_def)

text \<open>
  C8. If the command line parses and the entry point neither ends the process nor joins
  the logs itself, then \<^verbatim>\<open>Run\<close> returns, whether its body returned or panicked;
  \<^verbatim>\<open>gslogger.Join\<close> has been called exactly once more than before; and the events of
  the run end with the log of the recovered panic, if the body panicked, then the message
  "service stopped." and the join.
\<close>

theorem Run_always_shuts_down:
  assumes "fst (flag_Parse w) = Done" and "quiet (main r)"
  shows "fst (Run r main w) = Done
       \<and> count_list (trace (snd (Run r main w))) Join = count_list (trace w) Join + 1
       \<and> trace (snd (Run r main w))
           = trace (snd (Run_body r main w))
             @ (case fst (Run_body r main w) of Panic e \<Rightarrow> [LogPanic E fmt_catch e] | _ \<Rightarrow> [])
             @ [Log I ''service stopped.'' [], Join]"
proof -
  from assms(2) have "\<And>w1. quiet_at (main r) w1" by (simp add: quiet_def)
  with Run_startup_quiet [OF assms(1), of r] have q: "quiet_at (Run_body r main) w"
    unfolding Run_body_def by (rule quiet_at_andThen)
  obtain out w' where b: "Run_body r main w = (out, w')" by (cases "Run_body r main w")
  with q have ne: "out \<noteq> Exit" and c: "count_list (trace w') Join = count_list (trace w) Join"
    by (simp_all add: quiet_at_def)
  from b ne have r: "Run r main w = (Done, Run_deferred out w')"
    by (cases out) (simp_all add: Run_def)
  have "count_list (trace (Run_deferred out w')) Join = count_list (trace w') Join + 1"
    by (cases out) (simp_all add: Run_deferred_trace)
  with r b c show ?thesis
    by (simp add: Run_deferred_trace)
qed

lemma parse_world1: "flag_Parse world1 = (Done, world1)"
  by (simp add: flag_Parse_def world1_eq world0_def)

lemma world1_simps:
  "files world1 = Map.empty" "trace world1 = []" "config world1 = Map.empty"
  "mem_string world1 = (\<lambda>a. [])" "json_files world1 = Map.empty"
  by (simp_all add: world1_eq world0_def)

lemma body_panic_world1:
  "fst (Run_body runner0 main_panic world1) = Panic (UserPanic ''boom'')"
  "trace (snd (Run_body runner0 main_panic world1)) =
     [Log D ''config file path :%s'' [AStr []], Log D ''log root path :%s'' [AStr []],
      Log D ''log level :%s'' [AStr []], Log D ''registry file:%s'' [AStr []],
      Log I ''service started.'' [], Log I ''serving'' []]"
  by (simp_all add: Run_body_def Run_startup_def andThen_def parse_world1 runner0_eq log_def
        Run_config_def emit_def Run_merge_def world1_simps main_panic_def
        gsconfig_Update_def fullname_of_def gsconfig_String_def Run_logging_def Run_registry_def Let_def)

theorem Run_always_shuts_down_witness:
  "fst (Run runner0 main_panic world1) = Done
   \<and> count_list (trace (snd (Run runner0 main_panic world1))) Join = 1
   \<and> trace (snd (Run runner0 main_panic world1)) =
       [Log D ''config file path :%s'' [AStr []], Log D ''log root path :%s'' [AStr []],
        Log D ''log level :%s'' [AStr []], Log D ''registry file:%s'' [AStr []],
        Log I ''service started.'' [], Log I ''serving'' [],
        LogPanic E fmt_catch (UserPanic ''boom''), Log I ''service stopped.'' [], Join]"
proof -
  have 1: "fst (flag_Parse world1) = Done" by (simp add: parse_world1)
  have 2: "quiet (main_panic runner0)"
    by (simp add: quiet_def quiet_at_def main_panic_def)
  from Run_always_shuts_down [where main = main_panic and r = runner0 and w = world1, OF 1 2]
  show ?thesis
    by (simp add: body_panic_world1 world1_simps)
qed

text \<open>
  C9. For a configuration path that is not empty and whose extension is not
  \<^verbatim>\<open>.json\<close>, the configuration step returns with the warning logged and nothing else
  changed, whatever follows it runs on that world, the store is as before and the JSON
  loader was not called.
\<close>

theorem config_with_other_extension_is_skipped:
  assumes "configpath \<noteq> []" and "Ext configpath \<noteq> ''.json''"
  shows "Run_config runner configpath w
           = (Done, emit (Log W ''can't load config file :%s'' [AStr configpath]) w)
       \<and> andThen (Run_config runner configpath) rest w
           = rest (emit (Log W ''can't load config file :%s'' [AStr configpath]) w)
       \<and> config (snd (Run_config runner configpath w)) = config w
       \<and> LoadJSON p \<notin> set (trace (snd (Run_config runner configpath w))) - set (trace w)"
  using assms by (simp add: Run_config_def log_def andThen_def)

lemma parse_yaml:
  "flag_Parse world_yaml = (Done, world_yaml\<lparr>mem_string := (mem_string world_yaml)(3 := ''service.yaml'')\<rparr>)"
  by (simp add: flag_Parse_def world_yaml_def world1_eq world0_def store_def)

lemma world_yaml_simps:
  "files world_yaml = Map.empty" "trace world_yaml = []" "config world_yaml = Map.empty"
  "mem_string world_yaml = (\<lambda>a. [])" "json_files world_yaml = Map.empty"
  by (simp_all add: world_yaml_def world1_eq world0_def)

lemma ext_yaml: "Ext ''service.yaml'' = ''.yaml''"
  by (simp add: Ext_def)

lemma startup_yaml:
  "Run_startup runner0 world_yaml =
     andThen (Run_config runner0 ''service.yaml'')
       (andThen (\<lambda>w. (Done, Run_merge runner0 w))
          (\<lambda>w. andThen (log D ''log root path :%s'' [AStr []])
                 (andThen (log D ''log level :%s'' [AStr []])
                 (andThen (log D ''registry file:%s'' [AStr []])
                 (andThen (Run_logging runner0 [] [])
                 (andThen (Run_registry runner0 [])
                   (log I ''service started.'' []))))) w))
       (emit (Log D ''config file path :%s'' [AStr ''service.yaml''])
          (world_yaml\<lparr>mem_string := (mem_string world_yaml)(3 := ''service.yaml'')\<rparr>))"
  by (simp add: Run_startup_def andThen_def parse_yaml runner0_eq log_def
        Run_config_def ext_yaml emit_def Run_merge_def world_yaml_simps
        gsconfig_Update_def fullname_of_def gsconfig_String_def Run_logging_def Run_registry_def Let_def)

theorem config_with_other_extension_is_skipped_witness:
  "Run_config runner0 ''service.yaml'' world_yaml
     = (Done, emit (Log W ''can't load config file :%s'' [AStr ''service.yaml'']) world_yaml)
   \<and> fst (Run_startup runner0 world_yaml) = Done
   \<and> trace (snd (Run_startup runner0 world_yaml)) =
       [Log D ''config file path :%s'' [AStr ''service.yaml''],
        Log W ''can't load config file :%s'' [AStr ''service.yaml''],
        Log D ''log root path :%s'' [AStr []], Log D ''log level :%s'' [AStr []],
        Log D ''registry file:%s'' [AStr []], Log I ''service started.'' []]"
proof -
  have 1: "''service.yaml'' \<noteq> []" by simp
  have 2: "Ext ''service.yaml'' \<noteq> ''.json''" by (simp add: ext_yaml)
  note t = config_with_other_extension_is_skipped [OF 1 2, of runner0]
  from t [of world_yaml] have a: "Run_config runner0 ''service.yaml'' world_yaml
     = (Done, emit (Log W ''can't load config file :%s'' [AStr ''service.yaml'']) world_yaml)"
    by simp
  have "Run_startup runner0 world_yaml =
     andThen (\<lambda>w. (Done, Run_merge runner0 w))
          (\<lambda>w. andThen (log D ''log root path :%s'' [AStr []])
                 (andThen (log D ''log level :%s'' [AStr []])
                 (andThen (log D ''registry file:%s'' [AStr []])
                 (andThen (Run_logging runner0 [] [])
                 (andThen (Run_registry runner0 [])
                   (log I ''service started.'' []))))) w)
       (emit (Log W ''can't load config file :%s'' [AStr ''service.yaml''])
         (emit (Log D ''config file path :%s'' [AStr ''service.yaml''])
          (world_yaml\<lparr>mem_string := (mem_string world_yaml)(3 := ''service.yaml'')\<rparr>)))"
    unfolding startup_yaml using t by simp
  then have "fst (Run_startup runner0 world_yaml) = Done"
    and "trace (snd (Run_startup runner0 world_yaml)) =
       [Log D ''config file path :%s'' [AStr ''service.yaml''],
        Log W ''can't load config file :%s'' [AStr ''service.yaml''],
        Log D ''log root path :%s'' [AStr []], Log D ''log level :%s'' [AStr []],
        Log D ''registry file:%s'' [AStr []], Log I ''service started.'' []]"
    by (simp_all add: andThen_def log_def emit_def Run_merge_def world_yaml_simps
        runner0_eq gsconfig_Update_def fullname_of_def Run_logging_def Run_registry_def Let_def)
  with a show ?thesis by simp
qed

subsection \<open>Fatal errors during the startup\<close>

lemma store_env:
  "store p v w = Some w' \<Longrightarrow> files w' = files w \<and> json_files w' = json_files w
     \<and> formal w' = formal w \<and> config w' = config w"
  by (auto simp: store_def split: ptr.splits flag_value.splits)

lemma assign_all_env:
  "assign_all as w = (out, w') \<Longrightarrow> files w' = files w \<and> json_files w' = json_files w"
proof (induction as arbitrary: w)
  case Nil
  then show ?case by simp
next
  case (Cons a as)
  obtain n v where a: "a = (n, v)" by (cases a)
  from Cons.prems show ?case
    by (auto simp: a split: option.splits dest!: Cons.IH store_env)
qed

lemma flag_Parse_env:
  "flag_Parse w = (out, w') \<Longrightarrow> files w' = files w \<and> json_files w' = json_files w"
  by (auto simp: flag_Parse_def split: option.splits dest: assign_all_env)

lemma Run_config_env: "Run_config r cp w = (out, w') \<Longrightarrow> files w' = files w"
  by (auto simp: Run_config_def gsconfig_LoadJSON_def log_def emit_def split: if_splits option.splits)

lemma Run_logging_env: "files (snd (Run_logging r a b w)) = files w"
  by (simp add: Run_logging_def Let_def)

lemma Run_logging_Done: "fst (Run_logging r a b w) = Done"
  by (simp add: Run_logging_def Let_def)

lemma Run_startup_panic:
  "Run_startup r w = (Panic q, w') \<Longrightarrow> Run r main w = (Done, Run_deferred (Panic q) w')"
  by (simp add: Run_def Run_body_def andThen_def)

lemma startup_config_panic:
  assumes "flag_Parse w = (Done, wp)" and "map_of (flagString r) ''config'' = Some pc"
    and "cp = mem_string wp pc" and "wd = emit (Log D ''config file path :%s'' [AStr cp]) wp"
    and "cp \<noteq> []" and "Ext cp = ''.json''" and "json_files w cp = None"
  shows "Run_startup r w
           = (Panic (Panicf ErrConfig ''load config file error :%s'' [AStr cp]), emit (LoadJSON cp) wd)"
proof -
  from flag_Parse_env [OF assms(1)] assms(7) have "json_files wp cp = None" by simp
  with assms show ?thesis
    by (simp add: Run_startup_def andThen_def log_def Run_config_def gsconfig_LoadJSON_def Let_def)
qed

lemma startup_to_registry:
  assumes "flag_Parse w = (Done, wp)" and "map_of (flagString r) ''config'' = Some pc"
    and "cp = mem_string wp pc" and "wd = emit (Log D ''config file path :%s'' [AStr cp]) wp"
    and "Run_config r cp wd = (Done, w1)"
  shows "Run_startup r w
           = andThen (Run_registry r (gsconfig_String (Run_merge r w1) ''gsrunner.registry'' []))
               (log I ''service started.'' []) (at_registry r w1)"
    and "files (at_registry r w1) = files w"
proof -
  let ?wm = "Run_merge r w1"
  let ?a = "gsconfig_String ?wm ''gsrunner.log'' []"
  let ?b = "gsconfig_String ?wm ''gsrunner.log.level'' []"
  let ?c = "gsconfig_String ?wm ''gsrunner.registry'' []"
  let ?w3 = "emit (Log D ''registry file:%s'' [AStr ?c])
             (emit (Log D ''log level :%s'' [AStr ?b])
               (emit (Log D ''log root path :%s'' [AStr ?a]) ?wm))"
  have l: "Run_logging r ?a ?b ?w3 = (Done, at_registry r w1)"
    using Run_logging_Done [of r ?a ?b ?w3]
    by (cases "Run_logging r ?a ?b ?w3") (simp add: at_registry_def Let_def)
  from assms l show "Run_startup r w
           = andThen (Run_registry r ?c) (log I ''service started.'' []) (at_registry r w1)"
    by (simp add: Run_startup_def andThen_def log_def Let_def gsconfig_String_def)
  have "files (at_registry r w1) = files w1"
    by (simp add: at_registry_def Let_def Run_logging_env Run_merge_eq)
  also from Run_config_env [OF assms(5)] assms(4) have "\<dots> = files wp" by simp
  also from flag_Parse_env [OF assms(1)] have "\<dots> = files w" by simp
  finally show "files (at_registry r w1) = files w" .
qed

lemma registry_open_panic:
  "f \<noteq> [] \<Longrightarrow> files w f = None \<Longrightarrow>
   andThen (Run_registry r f) g w
     = (Panic (Panicf (OSError f) ''open registry file error :%s'' [AStr f]),
        emit (Log I ''load gsrpc services registry file :%s'' [AStr f]) w)"
  by (simp add: Run_registry_def andThen_def log_def)

lemma registry_format_panic:
  "f \<noteq> [] \<Longrightarrow> files w f = Some rd \<Longrightarrow> loadRegistry_loop f rd 0 [] = Inl q \<Longrightarrow>
   andThen (Run_registry r f) g w
     = (Panic q, emit (Log I ''load gsrpc services registry file :%s'' [AStr f]) w)"
  by (simp add: Run_registry_def andThen_def log_def loadRegistry_def)

text \<open>
  C4, amended. A configuration file that is named with the extension \<^verbatim>\<open>.json\<close> and
  fails to load, a registry file that cannot be opened and a registry file on which the
  loader panics each raise a panic with its message during the startup. The startup ends
  there: the result does not depend on the entry point, which is not invoked. The panic
  does not leave \<^verbatim>\<open>Run\<close>: the deferred function recovers it, logs it, logs
  "service stopped." and joins the logs, and \<^verbatim>\<open>Run\<close> returns.
\<close>

theorem fatal_startup_errors_are_recovered:
  assumes "flag_Parse w = (Done, wp)" and "map_of (flagString r) ''config'' = Some pc"
    and "cp = mem_string wp pc" and "wd = emit (Log D ''config file path :%s'' [AStr cp]) wp"
  shows "(cp \<noteq> [] \<and> Ext cp = ''.json'' \<and> json_files w cp = None \<longrightarrow>
            Run r main w
              = (Done, Run_deferred (Panic (Panicf ErrConfig ''load config file error :%s'' [AStr cp]))
                         (emit (LoadJSON cp) wd)))
       \<and> (Run_config r cp wd = (Done, w1) \<and> f = gsconfig_String (Run_merge r w1) ''gsrunner.registry'' []
            \<and> f \<noteq> [] \<and> files w f = None \<longrightarrow>
            Run r main w
              = (Done, Run_deferred (Panic (Panicf (OSError f) ''open registry file error :%s'' [AStr f]))
                         (emit (Log I ''load gsrpc services registry file :%s'' [AStr f])
                            (at_registry r w1))))
       \<and> (Run_config r cp wd = (Done, w1) \<and> f = gsconfig_String (Run_merge r w1) ''gsrunner.registry'' []
            \<and> f \<noteq> [] \<and> files w f = Some rd \<and> loadRegistry_loop f rd 0 [] = Inl q \<longrightarrow>
            Run r main w
              = (Done, Run_deferred (Panic q)
                         (emit (Log I ''load gsrpc services registry file :%s'' [AStr f])
                            (at_registry r w1))))
       \<and> trace (Run_deferred (Panic q) w')
            = trace w' @ [LogPanic E fmt_catch q, Log I ''service stopped.'' [], Join]"
proof (intro conjI impI)
  assume "cp \<noteq> [] \<and> Ext cp = ''.json'' \<and> json_files w cp = None"
  with assms show "Run r main w
              = (Done, Run_deferred (Panic (Panicf ErrConfig ''load config file error :%s'' [AStr cp]))
                         (emit (LoadJSON cp) wd))"
    by (intro Run_startup_panic startup_config_panic) simp_all
next
  assume a: "Run_config r cp wd = (Done, w1) \<and> f = gsconfig_String (Run_merge r w1) ''gsrunner.registry'' []
            \<and> f \<noteq> [] \<and> files w f = None"
  then have c: "Run_config r cp wd = (Done, w1)"
    and f: "f = gsconfig_String (Run_merge r w1) ''gsrunner.registry'' []" "f \<noteq> []"
    and n: "files w f = None" by blast+
  from startup_to_registry(2) [OF assms c] n have "files (at_registry r w1) f = None" by simp
  from registry_open_panic [OF f(2) this] startup_to_registry(1) [OF assms c] f(1)
  have "Run_startup r w = (Panic (Panicf (OSError f) ''open registry file error :%s'' [AStr f]),
          emit (Log I ''load gsrpc services registry file :%s'' [AStr f]) (at_registry r w1))"
    by simp
  then show "Run r main w
              = (Done, Run_deferred (Panic (Panicf (OSError f) ''open registry file error :%s'' [AStr f]))
                         (emit (Log I ''load gsrpc services registry file :%s'' [AStr f])
                            (at_registry r w1)))"
    by (rule Run_startup_panic)
next
  assume a: "Run_config r cp wd = (Done, w1) \<and> f = gsconfig_String (Run_merge r w1) ''gsrunner.registry'' []
            \<and> f \<noteq> [] \<and> files w f = Some rd \<and> loadRegistry_loop f rd 0 [] = Inl q"
  then have c: "Run_config r cp wd = (Done, w1)"
    and f: "f = gsconfig_String (Run_merge r w1) ''gsrunner.registry'' []" "f \<noteq> []"
    and n: "files w f = Some rd" and l: "loadRegistry_loop f rd 0 [] = Inl q" by blast+
  from startup_to_registry(2) [OF assms c] n have "files (at_registry r w1) f = Some rd" by simp
  from registry_format_panic [OF f(2) this l] startup_to_registry(1) [OF assms c] f(1)
  have "Run_startup r w = (Panic q,
          emit (Log I ''load gsrpc services registry file :%s'' [AStr f]) (at_registry r w1))"
    by simp
  then show "Run r main w
              = (Done, Run_deferred (Panic q)
                         (emit (Log I ''load gsrpc services registry file :%s'' [AStr f])
                            (at_registry r w1)))"
    by (rule Run_startup_panic)
next
  show "trace (Run_deferred (Panic q) w')
            = trace w' @ [LogPanic E fmt_catch q, Log I ''service stopped.'' [], Join]"
    by (simp add: Run_deferred_trace)
qed


lemma parse_nojson:
  "flag_Parse world_nojson
     = (Done, world_nojson\<lparr>mem_string := (mem_string world_nojson)(3 := ''missing.json'')\<rparr>)"
  by (simp add: flag_Parse_def world_nojson_def world1_eq world0_def store_def)

lemma parse_noreg:
  "flag_Parse world_noreg
     = (Done, world_noreg\<lparr>mem_string := (mem_string world_noreg)(4 := ''missing.reg'')\<rparr>)"
  by (simp add: flag_Parse_def world_noreg_def world1_eq world0_def store_def)

lemma parse_badreg:
  "flag_Parse world_badreg
     = (Done, world_badreg\<lparr>mem_string := (mem_string world_badreg)(4 := ''services.reg'')\<rparr>)"
  by (simp add: flag_Parse_def world_badreg_def world1_eq world0_def store_def)

lemma world_nojson_simps:
  "files world_nojson = Map.empty" "trace world_nojson = []" "config world_nojson = Map.empty"
  "mem_string world_nojson = (\<lambda>a. [])" "json_files world_nojson = Map.empty"
  by (simp_all add: world_nojson_def world1_eq world0_def)

lemma world_noreg_simps:
  "files world_noreg = Map.empty" "trace world_noreg = []" "config world_noreg = Map.empty"
  "mem_string world_noreg = (\<lambda>a. [])" "json_files world_noreg = Map.empty"
  by (simp_all add: world_noreg_def world1_eq world0_def)

lemma world_badreg_simps:
  "files world_badreg = [''services.reg'' \<mapsto> \<lparr>pending = ''a.b=1'' @ [CHR 0x0A], at_end = EOF\<rparr>]"
  "trace world_badreg = []" "config world_badreg = Map.empty"
  "mem_string world_badreg = (\<lambda>a. [])" "json_files world_badreg = Map.empty"
  by (simp_all add: world_badreg_def world1_eq world0_def)

lemma ext_missing: "Ext ''missing.json'' = ''.json''"
  by (simp add: Ext_def)

lemma load_one_line:
  "loadRegistry_loop p \<lparr>pending = ''a.b=1'' @ [CHR 0x0A], at_end = EOF\<rparr> 0 []
     = Inl (Panicf ErrRegistry fmt_invalid [AStr p, AInt 0])"
proof -
  have r: "ReadString \<lparr>pending = ''a.b=1'' @ [CHR 0x0A], at_end = EOF\<rparr> (CHR 0x0A)
             = (''a.b=1'' @ [CHR 0x0A], None, \<lparr>pending = [], at_end = EOF\<rparr>)"
    by (simp add: ReadString_def)
  have c: "check_line (''a.b=1'' @ [CHR 0x0A]) = Inl (ErrRegistry, fmt_invalid)"
    by (simp add: check_line_def FindStringSubmatch_def is_word_def is_digit_def)
  show ?thesis by (rule loop_bad [OF r c])
qed

lemmas run_eval =
  Run_def Run_body_def Run_startup_def andThen_def runner0_eq log_def Run_config_def
  gsconfig_LoadJSON_def emit_def Run_merge_def gsconfig_Update_def fullname_of_def
  gsconfig_String_def Run_logging_def Run_registry_def Run_deferred_def Let_def
  loadRegistry_def main_serve_def

text \<open>
  C4, as the claim states it, fails: in each of the three processes \<^verbatim>\<open>Run\<close> returns
  normally. The fatal error is among the events, logged by the deferred function as a
  caught exception, followed by "service stopped." and the join; the process is not
  aborted.
\<close>

theorem fatal_errors_do_not_abort:
  "fst (Run runner0 main_serve world_nojson) = Done
   \<and> trace (snd (Run runner0 main_serve world_nojson)) =
       [Log D ''config file path :%s'' [AStr ''missing.json''], LoadJSON ''missing.json'',
        LogPanic E fmt_catch (Panicf ErrConfig ''load config file error :%s'' [AStr ''missing.json'']),
        Log I ''service stopped.'' [], Join]
   \<and> fst (Run runner0 main_serve world_noreg) = Done
   \<and> trace (snd (Run runner0 main_serve world_noreg)) =
       [Log D ''config file path :%s'' [AStr []], Log D ''log root path :%s'' [AStr []],
        Log D ''log level :%s'' [AStr []], Log D ''registry file:%s'' [AStr ''missing.reg''],
        Log I ''load gsrpc services registry file :%s'' [AStr ''missing.reg''],
        LogPanic E fmt_catch
          (Panicf (OSError ''missing.reg'') ''open registry file error :%s'' [AStr ''missing.reg'']),
        Log I ''service stopped.'' [], Join]
   \<and> fst (Run runner0 main_serve world_badreg) = Done
   \<and> trace (snd (Run runner0 main_serve world_badreg)) =
       [Log D ''config file path :%s'' [AStr []], Log D ''log root path :%s'' [AStr []],
        Log D ''log level :%s'' [AStr []], Log D ''registry file:%s'' [AStr ''services.reg''],
        Log I ''load gsrpc services registry file :%s'' [AStr ''services.reg''],
        LogPanic E fmt_catch (Panicf ErrRegistry fmt_invalid [AStr ''services.reg'', AInt 0]),
        Log I ''service stopped.'' [], Join]"
proof -
  have 1: "fst (Run runner0 main_serve world_nojson) = Done"
    "trace (snd (Run runner0 main_serve world_nojson)) =
       [Log D ''config file path :%s'' [AStr ''missing.json''], LoadJSON ''missing.json'',
        LogPanic E fmt_catch (Panicf ErrConfig ''load config file error :%s'' [AStr ''missing.json'']),
        Log I ''service stopped.'' [], Join]"
    by (simp_all add: run_eval parse_nojson ext_missing world_nojson_simps)
  have 2: "fst (Run runner0 main_serve world_noreg) = Done"
    "trace (snd (Run runner0 main_serve world_noreg)) =
       [Log D ''config file path :%s'' [AStr []], Log D ''log root path :%s'' [AStr []],
        Log D ''log level :%s'' [AStr []], Log D ''registry file:%s'' [AStr ''missing.reg''],
        Log I ''load gsrpc services registry file :%s'' [AStr ''missing.reg''],
        LogPanic E fmt_catch
          (Panicf (OSError ''missing.reg'') ''open registry file error :%s'' [AStr ''missing.reg'']),
        Log I ''service stopped.'' [], Join]"
    by (simp_all add: run_eval parse_noreg world_noreg_simps)
  have 3: "fst (Run runner0 main_serve world_badreg) = Done"
    "trace (snd (Run runner0 main_serve world_badreg)) =
       [Log D ''config file path :%s'' [AStr []], Log D ''log root path :%s'' [AStr []],
        Log D ''log level :%s'' [AStr []], Log D ''registry file:%s'' [AStr ''services.reg''],
        Log I ''load gsrpc services registry file :%s'' [AStr ''services.reg''],
        LogPanic E fmt_catch (Panicf ErrRegistry fmt_invalid [AStr ''services.reg'', AInt 0]),
        Log I ''service stopped.'' [], Join]"
    by (simp_all add: run_eval parse_badreg world_badreg_simps load_one_line [simplified])
  from 1 2 3 show ?thesis by blast
qed


theorem fatal_startup_errors_are_recovered_witness:
  "Run runner0 main_serve world_nojson
     = (Done, Run_deferred (Panic (Panicf ErrConfig ''load config file error :%s'' [AStr ''missing.json'']))
                (emit (LoadJSON ''missing.json'')
                   (emit (Log D ''config file path :%s'' [AStr ''missing.json''])
                      (world_nojson\<lparr>mem_string := (mem_string world_nojson)(3 := ''missing.json'')\<rparr>))))
   \<and> Run runner0 main_serve world_noreg
     = (Done, Run_deferred
                (Panic (Panicf (OSError ''missing.reg'') ''open registry file error :%s'' [AStr ''missing.reg'']))
                (emit (Log I ''load gsrpc services registry file :%s'' [AStr ''missing.reg''])
                   (at_registry runner0
                      (emit (Log D ''config file path :%s'' [AStr []])
                         (world_noreg\<lparr>mem_string := (mem_string world_noreg)(4 := ''missing.reg'')\<rparr>)))))
   \<and> Run runner0 main_serve world_badreg
     = (Done, Run_deferred (Panic (Panicf ErrRegistry fmt_invalid [AStr ''services.reg'', AInt 0]))
                (emit (Log I ''load gsrpc services registry file :%s'' [AStr ''services.reg''])
                   (at_registry runner0
                      (emit (Log D ''config file path :%s'' [AStr []])
                         (world_badreg\<lparr>mem_string := (mem_string world_badreg)(4 := ''services.reg'')\<rparr>)))))"
proof -
  let ?wj = "world_nojson\<lparr>mem_string := (mem_string world_nojson)(3 := ''missing.json'')\<rparr>"
  let ?wn = "world_noreg\<lparr>mem_string := (mem_string world_noreg)(4 := ''missing.reg'')\<rparr>"
  let ?wb = "world_badreg\<lparr>mem_string := (mem_string world_badreg)(4 := ''services.reg'')\<rparr>"
  have c: "map_of (flagString runner0) ''config'' = Some 3"
    by (simp add: runner0_eq)
  have 1: "Run runner0 main_serve world_nojson
     = (Done, Run_deferred (Panic (Panicf ErrConfig ''load config file error :%s'' [AStr ''missing.json'']))
                (emit (LoadJSON ''missing.json'')
                   (emit (Log D ''config file path :%s'' [AStr ''missing.json'']) ?wj)))"
    using fatal_startup_errors_are_recovered [where r = runner0 and w = world_nojson and wp = ?wj
        and pc = 3 and cp = "''missing.json''" and main = main_serve
        and wd = "emit (Log D ''config file path :%s'' [AStr ''missing.json'']) ?wj",
        OF parse_nojson c]
    by (simp add: ext_missing world_nojson_simps)
  have m: "mem_string world_noreg 3 = []" "mem_string world_badreg 3 = []"
    by (simp_all add: world_noreg_simps world_badreg_simps)
  have rn: "Run_config runner0 [] (emit (Log D ''config file path :%s'' [AStr []]) w)
              = (Done, emit (Log D ''config file path :%s'' [AStr []]) w)" for w
    by (simp add: Run_config_def)
  have fn: "gsconfig_String (Run_merge runner0 (emit (Log D ''config file path :%s'' [AStr []]) ?wn))
              ''gsrunner.registry'' [] = ''missing.reg''"
    by (simp add: gsconfig_String_def Run_merge_def runner0_eq gsconfig_Update_def fullname_of_def
          emit_def world_noreg_simps)
  have fb: "gsconfig_String (Run_merge runner0 (emit (Log D ''config file path :%s'' [AStr []]) ?wb))
              ''gsrunner.registry'' [] = ''services.reg''"
    by (simp add: gsconfig_String_def Run_merge_def runner0_eq gsconfig_Update_def fullname_of_def
          emit_def world_badreg_simps)
  have 2: "Run runner0 main_serve world_noreg
     = (Done, Run_deferred
                (Panic (Panicf (OSError ''missing.reg'') ''open registry file error :%s'' [AStr ''missing.reg'']))
                (emit (Log I ''load gsrpc services registry file :%s'' [AStr ''missing.reg''])
                   (at_registry runner0 (emit (Log D ''config file path :%s'' [AStr []]) ?wn))))"
    using fatal_startup_errors_are_recovered [where r = runner0 and w = world_noreg and wp = ?wn
        and pc = 3 and cp = "[]" and main = main_serve and f = "''missing.reg''"
        and wd = "emit (Log D ''config file path :%s'' [AStr []]) ?wn"
        and ?w1.0 = "emit (Log D ''config file path :%s'' [AStr []]) ?wn",
        OF parse_noreg c]
    by (simp add: rn fn m world_noreg_simps(1))
  have 3: "Run runner0 main_serve world_badreg
     = (Done, Run_deferred (Panic (Panicf ErrRegistry fmt_invalid [AStr ''services.reg'', AInt 0]))
                (emit (Log I ''load gsrpc services registry file :%s'' [AStr ''services.reg''])
                   (at_registry runner0 (emit (Log D ''config file path :%s'' [AStr []]) ?wb))))"
    using fatal_startup_errors_are_recovered [where r = runner0 and w = world_badreg and wp = ?wb
        and pc = 3 and cp = "[]" and main = main_serve and f = "''services.reg''"
        and wd = "emit (Log D ''config file path :%s'' [AStr []]) ?wb"
        and ?w1.0 = "emit (Log D ''config file path :%s'' [AStr []]) ?wb"
        and rd = "\<lparr>pending = ''a.b=1'' @ [CHR 0x0A], at_end = EOF\<rparr>"
        and q = "Panicf ErrRegistry fmt_invalid [AStr ''services.reg'', AInt 0]",
        OF parse_badreg c]
    by (simp add: rn fb m world_badreg_simps(1) load_one_line [simplified])
  from 1 2 3 show ?thesis by blast
qed

end
